theory Spec2Isabelle
  imports Main "HOL-Library.Word"
begin

unbundle bit_operations_syntax

section \<open>Machine sizes and loops\<close>

text \<open>
  Every size, index and count of the library is a C++ \<^verbatim>\<open>size_t\<close>, taken here as an
  unsigned 64-bit integer.  Sizes are modelled as \<open>nat\<close>; an addition of two sizes that the
  source performs on caller-supplied values is written with its wrap-around.
\<close>

definition size_t_add :: "nat \<Rightarrow> nat \<Rightarrow> nat" where
  "size_t_add a b = (a + b) mod 2 ^ 64"

definition size_t_mult :: "nat \<Rightarrow> nat \<Rightarrow> nat" where
  "size_t_mult a b = (a * b) mod 2 ^ 64"

text \<open>
  The C++ loop \<^verbatim>\<open>for( size_t i=a; i<e; i+=step ) body\<close>, threading the state through the
  body.  The strides of the source are the positive constants 1, 2, \<^verbatim>\<open>IT::size\<close> and
  \<^verbatim>\<open>IT::size*4\<close>; a stride of 0 does not occur, and the guard \<open>0 < step\<close> only makes
  the function total.
\<close>

function for_loop :: "nat \<Rightarrow> nat \<Rightarrow> nat \<Rightarrow> (nat \<Rightarrow> 's \<Rightarrow> 's) \<Rightarrow> 's \<Rightarrow> 's" where
  "for_loop i e step body s =
     (if i < e \<and> 0 < step then for_loop (i + step) e step body (body i s) else s)"
  by pat_completeness auto
termination
  by (relation "measure (\<lambda>(i, e, step, body, s). e - i)") auto

declare for_loop.simps [simp del]

section \<open>DynamicVector\<close>

text \<open>
  The class \<^verbatim>\<open>DynamicVector<Type,TF>\<close> with its three members \<^verbatim>\<open>size_\<close>,
  \<^verbatim>\<open>capacity_\<close> and \<^verbatim>\<open>v_\<close> (a name of the logic cannot end with an underscore, so
  the fields carry the prefix \<open>dv_\<close> instead).  The array \<^verbatim>\<open>v_\<close> is the list of the
  \<^verbatim>\<open>capacity_\<close> allocated elements.  Two compile-time traits of the element
  type are parameters of every operation: \<^verbatim>\<open>IsNumeric<Type>::value\<close> and
  \<^verbatim>\<open>IntrinsicTrait<Type>::size\<close> (\<^verbatim>\<open>IT::size\<close>), the number of elements of one SIMD
  vector.  \<^verbatim>\<open>Type()\<close> of a numeric type is \<open>0\<close>.
\<close>

record 'a DynamicVector =
  dv_size :: nat
  dv_capacity :: nat
  dv_v :: "'a list"

text \<open>
  Modelled from the spec: \<^verbatim>\<open>allocate<Type>( n )\<close> is not part of the sources at hand.  It
  returns a fresh block of \<open>n\<close> elements that are not initialised; their arbitrary contents
  are the values of \<open>junk\<close>.  Allocation failure (\<^verbatim>\<open>std::bad_alloc\<close>) is outside the model.
\<close>

definition allocate :: "(nat \<Rightarrow> 'a) \<Rightarrow> nat \<Rightarrow> 'a list" where
  "allocate junk n = map junk [0..<n]"

text \<open>\<^verbatim>\<open>std::copy( first, first+n, dest )\<close> on arrays.\<close>

definition std_copy :: "'a list \<Rightarrow> nat \<Rightarrow> 'a list \<Rightarrow> 'a list" where
  "std_copy src n dest = for_loop 0 n 1 (\<lambda>i d. d[i := src ! i]) dest"

text \<open>\<^verbatim>\<open>for( size_t i=a; i<e; ++i ) v[i] = Type();\<close>\<close>

definition fill_default :: "nat \<Rightarrow> nat \<Rightarrow> 'a::zero list \<Rightarrow> 'a list" where
  "fill_default a e v = for_loop a e 1 (\<lambda>i w. w[i := 0]) v"

definition adjustCapacity :: "bool \<Rightarrow> nat \<Rightarrow> nat \<Rightarrow> nat" where
  "adjustCapacity IsNumeric IT_size minCapacity =
     (if IsNumeric
      then size_t_add minCapacity ((IT_size - (minCapacity mod IT_size)) mod IT_size)
      else minCapacity)"

text \<open>The constructor \<^verbatim>\<open>DynamicVector( size_t n )\<close>.\<close>

definition DynamicVector_n ::
  "bool \<Rightarrow> nat \<Rightarrow> (nat \<Rightarrow> 'a) \<Rightarrow> nat \<Rightarrow> 'a::zero DynamicVector" where
  "DynamicVector_n IsNumeric IT_size junk n =
     (let capacity = adjustCapacity IsNumeric IT_size n;
          v = allocate junk capacity
      in \<lparr> dv_size = n, dv_capacity = capacity,
           dv_v = (if IsNumeric then fill_default n capacity v else v) \<rparr>)"


text \<open>
  \<^verbatim>\<open>operator[]\<close>: reading an element and writing through the returned reference.  The
  index is below \<^verbatim>\<open>size_\<close> by a user assertion only.
\<close>

definition subscript :: "'a DynamicVector \<Rightarrow> nat \<Rightarrow> 'a" where
  "subscript x index = dv_v x ! index"


definition resize ::
  "bool \<Rightarrow> nat \<Rightarrow> (nat \<Rightarrow> 'a) \<Rightarrow> 'a::zero DynamicVector \<Rightarrow> nat \<Rightarrow> bool \<Rightarrow> 'a DynamicVector" where
  "resize IsNumeric IT_size junk x n preserve =
     (if n > dv_capacity x then
        let newCapacity = adjustCapacity IsNumeric IT_size n;
            tmp = allocate junk newCapacity;
            tmp1 = (if preserve then std_copy (dv_v x) (dv_size x) tmp else tmp);
            tmp2 = (if IsNumeric then fill_default (dv_size x) newCapacity tmp1 else tmp1)
        in x\<lparr> dv_v := tmp2, dv_capacity := newCapacity, dv_size := n \<rparr>
      else if IsNumeric \<and> n < dv_size x then
        x\<lparr> dv_v := fill_default n (dv_size x) (dv_v x), dv_size := n \<rparr>
      else x\<lparr> dv_size := n \<rparr>)"






text \<open>The round-up of \<open>n\<close> to a multiple of the vector width is a \<^verbatim>\<open>size_t\<close> value.\<close>

definition round_up_fits :: "nat \<Rightarrow> nat \<Rightarrow> bool" where
  "round_up_fits IT_size n \<longleftrightarrow> n + (IT_size - n mod IT_size) mod IT_size < 2 ^ 64"


section \<open>Dense matrices, the store and DenseSubmatrix\<close>

text \<open>
  A view refers to its matrix (the member \<^verbatim>\<open>matrix_\<close> is a reference), and two views may
  refer to the same matrix.  The matrices therefore live in a store, a map from addresses
  to matrix values, and a reference is an address.
\<close>

type_synonym addr = nat

text \<open>
  Modelled from the spec: the dense matrix type \<^verbatim>\<open>MT\<close> under a view (for instance
  \<^verbatim>\<open>DynamicMatrix\<close>) is not part of the sources at hand.  It exposes its row and column
  counts, the element accessor \<^verbatim>\<open>operator()(i,j)\<close> and the width-aware
  \<^verbatim>\<open>load\<close>/\<^verbatim>\<open>loadu\<close>/\<^verbatim>\<open>store\<close>/\<^verbatim>\<open>storeu\<close>/\<^verbatim>\<open>stream\<close> primitives.  Every row is
  padded beyond its last column to a multiple of the vector width: \<open>mat_cell M i j\<close> with
  \<open>j < mat_columns M\<close> is the element \<open>(i,j)\<close>, and with \<open>j \<ge> mat_columns M\<close> a slot
  of the padding of row \<open>i\<close>.
\<close>

record 'a dense_matrix =
  mat_rows :: nat
  mat_columns :: nat
  mat_cell :: "nat \<Rightarrow> nat \<Rightarrow> 'a"

type_synonym 'a store = "addr \<Rightarrow> 'a dense_matrix"

text \<open>
  Modelled from the spec: the accessor \<^verbatim>\<open>operator()(i,j)\<close> of the matrix under a view.
  \<open>mat_at\<close> is the read \<^verbatim>\<open>matrix(i,j)\<close>, \<open>mat_set\<close> the write \<^verbatim>\<open>matrix(i,j) = x\<close>
  through the returned reference.
\<close>

definition mat_at :: "'a store \<Rightarrow> addr \<Rightarrow> nat \<Rightarrow> nat \<Rightarrow> 'a" where
  "mat_at h a i j = mat_cell (h a) i j"

definition mat_set :: "'a store \<Rightarrow> addr \<Rightarrow> nat \<Rightarrow> nat \<Rightarrow> 'a \<Rightarrow> 'a store" where
  "mat_set h a i j x =
     h(a := (h a)\<lparr> mat_cell := (mat_cell (h a))(i := (mat_cell (h a) i)(j := x)) \<rparr>)"

text \<open>
  Modelled from the spec: \<^verbatim>\<open>matrix.loadu(i,j)\<close> reads the \<^verbatim>\<open>IT::size\<close> consecutive slots
  of row \<open>i\<close> from column \<open>j\<close> on; \<^verbatim>\<open>matrix.storeu(i,j,value)\<close> and
  \<^verbatim>\<open>matrix.stream(i,j,value)\<close> write them.  A streaming store differs from an ordinary one
  in its use of the cache only.
\<close>

definition mat_loadu :: "nat \<Rightarrow> 'a dense_matrix \<Rightarrow> nat \<Rightarrow> nat \<Rightarrow> 'a list" where
  "mat_loadu IT_size M i j = map (\<lambda>k. mat_cell M i (j + k)) [0..<IT_size]"

definition mat_storeu :: "nat \<Rightarrow> 'a store \<Rightarrow> addr \<Rightarrow> nat \<Rightarrow> nat \<Rightarrow> 'a list \<Rightarrow> 'a store" where
  "mat_storeu IT_size h a i j val =
     h(a := (h a)\<lparr> mat_cell :=
          (\<lambda>r c. if r = i \<and> j \<le> c \<and> c < j + IT_size then val ! (c - j)
                 else mat_cell (h a) r c) \<rparr>)"

definition mat_stream :: "nat \<Rightarrow> 'a store \<Rightarrow> addr \<Rightarrow> nat \<Rightarrow> nat \<Rightarrow> 'a list \<Rightarrow> 'a store" where
  "mat_stream = mat_storeu"

datatype error = invalid_argument string

text \<open>
  The row-major class \<^verbatim>\<open>DenseSubmatrix<MT,SO>\<close> with its members \<^verbatim>\<open>matrix_\<close>,
  \<^verbatim>\<open>row_\<close>, \<^verbatim>\<open>column_\<close>, \<^verbatim>\<open>m_\<close>, \<^verbatim>\<open>n_\<close>, \<^verbatim>\<open>rest_\<close>, \<^verbatim>\<open>final_\<close> and
  \<^verbatim>\<open>aligned_\<close>, under the prefix \<open>sm_\<close>.
\<close>

record DenseSubmatrix =
  sm_matrix :: addr
  sm_row :: nat
  sm_column :: nat
  sm_m :: nat
  sm_n :: nat
  sm_rest :: nat
  sm_final :: nat
  sm_aligned :: bool

text \<open>
  The constructor.  The two sums of the bounds check and the sum in \<^verbatim>\<open>aligned_\<close> are
  \<^verbatim>\<open>size_t\<close> additions of the caller's arguments.
\<close>

definition DenseSubmatrix_ctor ::
  "nat \<Rightarrow> 'a store \<Rightarrow> addr \<Rightarrow> nat \<Rightarrow> nat \<Rightarrow> nat \<Rightarrow> nat \<Rightarrow> error + DenseSubmatrix" where
  "DenseSubmatrix_ctor IT_size h matrix row column m n =
     (if size_t_add row m > mat_rows (h matrix) \<or> size_t_add column n > mat_columns (h matrix)
      then Inl (invalid_argument ''Invalid submatrix specification'')
      else Inr \<lparr> sm_matrix = matrix, sm_row = row, sm_column = column, sm_m = m, sm_n = n,
                 sm_rest = n mod IT_size, sm_final = n - n mod IT_size,
                 sm_aligned = (column mod IT_size = 0 \<and>
                    (size_t_add column n = mat_columns (h matrix) \<or> n mod IT_size = 0)) \<rparr>)"

text \<open>The free function \<^verbatim>\<open>submatrix( dm, row, column, m, n )\<close> on a dense matrix.\<close>

definition submatrix ::
  "nat \<Rightarrow> 'a store \<Rightarrow> addr \<Rightarrow> nat \<Rightarrow> nat \<Rightarrow> nat \<Rightarrow> nat \<Rightarrow> error + DenseSubmatrix" where
  "submatrix IT_size h dm row column m n = DenseSubmatrix_ctor IT_size h dm row column m n"


definition sm_rows :: "DenseSubmatrix \<Rightarrow> nat" where
  "sm_rows v = sm_m v"

definition sm_columns :: "DenseSubmatrix \<Rightarrow> nat" where
  "sm_columns v = sm_n v"

text \<open>
  \<^verbatim>\<open>operator()( i, j )\<close> of a view.  Here and in the kernels below the sums
  \<^verbatim>\<open>row_+i\<close> and \<^verbatim>\<open>column_+j\<close> are written without wrap-around: in a view that lies
  within its matrix they are below the dimensions of the matrix for \<open>i < m_\<close> and
  \<open>j < n_\<close>.
\<close>

definition sm_at :: "'a store \<Rightarrow> DenseSubmatrix \<Rightarrow> nat \<Rightarrow> nat \<Rightarrow> 'a" where
  "sm_at h v i j = mat_at h (sm_matrix v) (sm_row v + i) (sm_column v + j)"

definition sm_canAlias :: "DenseSubmatrix \<Rightarrow> addr \<Rightarrow> bool" where
  "sm_canAlias v alias \<longleftrightarrow> sm_matrix v = alias"

definition sm_isAliased :: "DenseSubmatrix \<Rightarrow> addr \<Rightarrow> bool" where
  "sm_isAliased v alias \<longleftrightarrow> sm_matrix v = alias"

text \<open>
  \<^verbatim>\<open>loadu( i, j )\<close> and \<^verbatim>\<open>storeu( i, j, value )\<close> of a view; \<^verbatim>\<open>load\<close>, \<^verbatim>\<open>store\<close> and
  \<^verbatim>\<open>stream\<close> of a view call them.  In the partial load the local \<^verbatim>\<open>IntrinsicType value\<close>
  starts uninitialised, with the arbitrary lanes \<open>junk\<close>.
\<close>

definition sm_loadu :: "nat \<Rightarrow> 'a list \<Rightarrow> 'a store \<Rightarrow> DenseSubmatrix \<Rightarrow> nat \<Rightarrow> nat \<Rightarrow> 'a list" where
  "sm_loadu IT_size junk h v i j =
     (if sm_aligned v \<or> j \<noteq> sm_final v
      then mat_loadu IT_size (h (sm_matrix v)) (sm_row v + i) (sm_column v + j)
      else for_loop 0 (sm_rest v) 1
             (\<lambda>k val. val[k := mat_at h (sm_matrix v) (sm_row v + i) (sm_column v + j + k)]) junk)"

definition sm_storeu :: "nat \<Rightarrow> 'a store \<Rightarrow> DenseSubmatrix \<Rightarrow> nat \<Rightarrow> nat \<Rightarrow> 'a list \<Rightarrow> 'a store" where
  "sm_storeu IT_size h v i j val =
     (if sm_aligned v \<or> j \<noteq> sm_final v
      then mat_storeu IT_size h (sm_matrix v) (sm_row v + i) (sm_column v + j) val
      else for_loop 0 (sm_rest v) 1
             (\<lambda>k h'. mat_set h' (sm_matrix v) (sm_row v + i) (sm_column v + j + k) (val ! k)) h)"

text \<open>
  \<^verbatim>\<open>reset()\<close> of a view; \<^verbatim>\<open>reset\<close> of a numeric element stores \<open>0\<close>.  The body of the
  loop over the rows is a function of its own, here and in the kernels below.
\<close>

definition sm_reset_row :: "DenseSubmatrix \<Rightarrow> nat \<Rightarrow> nat \<Rightarrow> 'a::zero store \<Rightarrow> 'a store" where
  "sm_reset_row v jend i h =
     for_loop (sm_column v) jend 1 (\<lambda>j h1. mat_set h1 (sm_matrix v) i j 0) h"

definition sm_reset :: "'a::zero store \<Rightarrow> DenseSubmatrix \<Rightarrow> 'a store" where
  "sm_reset h v =
     (let iend = sm_row v + sm_m v; jend = sm_column v + sm_n v
      in for_loop (sm_row v) iend 1 (sm_reset_row v jend) h)"

subsection \<open>Right-hand sides\<close>

text \<open>
  The dense right-hand sides of the same storage order: a matrix of the store, a view, or
  a temporary (a local object that no view refers to).
\<close>

datatype 'a dense_rhs = Mat addr | Sub DenseSubmatrix | Tmp "'a dense_matrix"

text \<open>
  Modelled from the spec: the sparse matrix type (for instance \<^verbatim>\<open>CompressedMatrix\<close>) is
  not part of the sources at hand.  \<open>sp_row S i\<close> lists the elements between
  \<^verbatim>\<open>begin(i)\<close> and \<^verbatim>\<open>end(i)\<close> as pairs of \<^verbatim>\<open>index()\<close> and \<^verbatim>\<open>value()\<close>.
\<close>

record 'a sparse_matrix =
  sp_rows :: nat
  sp_columns :: nat
  sp_row :: "nat \<Rightarrow> (nat \<times> 'a) list"

datatype 'a rhs = Dense "'a dense_rhs" | Sparse "'a sparse_matrix"

fun dense_rows :: "'a store \<Rightarrow> 'a dense_rhs \<Rightarrow> nat" where
  "dense_rows h (Mat b) = mat_rows (h b)"
| "dense_rows h (Sub w) = sm_rows w"
| "dense_rows h (Tmp t) = mat_rows t"

fun dense_columns :: "'a store \<Rightarrow> 'a dense_rhs \<Rightarrow> nat" where
  "dense_columns h (Mat b) = mat_columns (h b)"
| "dense_columns h (Sub w) = sm_columns w"
| "dense_columns h (Tmp t) = mat_columns t"

fun dense_at :: "'a store \<Rightarrow> 'a dense_rhs \<Rightarrow> nat \<Rightarrow> nat \<Rightarrow> 'a" where
  "dense_at h (Mat b) i j = mat_at h b i j"
| "dense_at h (Sub w) i j = sm_at h w i j"
| "dense_at h (Tmp t) i j = mat_cell t i j"

fun dense_load :: "nat \<Rightarrow> 'a list \<Rightarrow> 'a store \<Rightarrow> 'a dense_rhs \<Rightarrow> nat \<Rightarrow> nat \<Rightarrow> 'a list" where
  "dense_load IT_size junk h (Mat b) i j = mat_loadu IT_size (h b) i j"
| "dense_load IT_size junk h (Sub w) i j = sm_loadu IT_size junk h w i j"
| "dense_load IT_size junk h (Tmp t) i j = mat_loadu IT_size t i j"

text \<open>
  \<^verbatim>\<open>canAlias\<close> and \<^verbatim>\<open>isAliased\<close> compare the address of the object (of the matrix under
  a view) with the given one; a temporary is at no address of the store.
\<close>

fun dense_canAlias :: "'a dense_rhs \<Rightarrow> addr \<Rightarrow> bool" where
  "dense_canAlias (Mat b) alias \<longleftrightarrow> b = alias"
| "dense_canAlias (Sub w) alias \<longleftrightarrow> sm_canAlias w alias"
| "dense_canAlias (Tmp t) alias \<longleftrightarrow> False"

fun dense_isAliased :: "'a dense_rhs \<Rightarrow> addr \<Rightarrow> bool" where
  "dense_isAliased (Mat b) alias \<longleftrightarrow> b = alias"
| "dense_isAliased (Sub w) alias \<longleftrightarrow> sm_isAliased w alias"
| "dense_isAliased (Tmp t) alias \<longleftrightarrow> False"

text \<open>
  Modelled from the spec: \<^verbatim>\<open>const ResultType tmp( rhs )\<close> materialises the right-hand side
  into a new matrix of its shape; the constructor of \<^verbatim>\<open>ResultType\<close> is not part of the
  sources at hand.  The padding of the new matrix holds the default value.
\<close>

definition ResultType_ctor :: "'a::zero store \<Rightarrow> 'a dense_rhs \<Rightarrow> 'a dense_matrix" where
  "ResultType_ctor h rhs =
     \<lparr> mat_rows = dense_rows h rhs, mat_columns = dense_columns h rhs,
       mat_cell = (\<lambda>i j. if i < dense_rows h rhs \<and> j < dense_columns h rhs
                          then dense_at h rhs i j else 0) \<rparr>"

subsection \<open>Assignment kernels\<close>

text \<open>
  \<^verbatim>\<open>n_ & size_t(-2)\<close> and \<^verbatim>\<open>n_ & size_t(-IT::size*4)\<close>: the bitwise conjunction of a
  \<^verbatim>\<open>size_t\<close> with the two's complement of the stride.
\<close>

definition and_neg :: "nat \<Rightarrow> nat \<Rightarrow> nat" where
  "and_neg n stride = unat ((word_of_nat n :: 64 word) AND word_of_int (- int stride))"

definition VectorizedAssign :: "bool \<Rightarrow> bool \<Rightarrow> bool \<Rightarrow> bool" where
  "VectorizedAssign vectorizable vectorizable2 same_element_type \<longleftrightarrow>
     vectorizable \<and> vectorizable2 \<and> same_element_type"

text \<open>
  The default kernel \<^verbatim>\<open>assign( const DenseMatrix<MT2,SO>& rhs )\<close>: the body of the
  unrolled loop over the columns, the body of the loop over the rows, and the kernel.
\<close>

definition assign_default_pair ::
  "DenseSubmatrix \<Rightarrow> 'a dense_rhs \<Rightarrow> nat \<Rightarrow> nat \<Rightarrow> 'a store \<Rightarrow> 'a store" where
  "assign_default_pair v rhs i j h =
     (let h1 = mat_set h (sm_matrix v) (sm_row v + i) (sm_column v + j) (dense_at h rhs i j)
      in mat_set h1 (sm_matrix v) (sm_row v + i) (sm_column v + j + 1)
           (dense_at h1 rhs i (j + 1)))"

definition assign_default_row ::
  "DenseSubmatrix \<Rightarrow> 'a dense_rhs \<Rightarrow> nat \<Rightarrow> nat \<Rightarrow> 'a store \<Rightarrow> 'a store" where
  "assign_default_row v rhs jend i h =
     (let h1 = for_loop 0 jend 2 (assign_default_pair v rhs i) h
      in if jend < sm_n v
         then mat_set h1 (sm_matrix v) (sm_row v + i) (sm_column v + jend)
                (dense_at h1 rhs i jend)
         else h1)"

definition assign_default :: "'a store \<Rightarrow> DenseSubmatrix \<Rightarrow> 'a dense_rhs \<Rightarrow> 'a store" where
  "assign_default h v rhs =
     (let jend = and_neg (sm_n v) 2
      in for_loop 0 (sm_m v) 1 (assign_default_row v rhs jend) h)"

text \<open>
  The intrinsic kernel \<^verbatim>\<open>assign( const DenseMatrix<MT2,SO>& rhs )\<close>, with the constants
  \<^verbatim>\<open>cacheSize\<close> and \<^verbatim>\<open>sizeof(ElementType)\<close> as parameters: the row of the streaming
  branch, the four stores of the unrolled loop, the row of the other branch, and the
  kernel.
\<close>

definition assign_stream_row ::
  "nat \<Rightarrow> 'a list \<Rightarrow> DenseSubmatrix \<Rightarrow> 'a dense_rhs \<Rightarrow> nat \<Rightarrow> 'a store \<Rightarrow> 'a store" where
  "assign_stream_row IT_size junk v rhs i h =
     for_loop 0 (sm_n v) IT_size
       (\<lambda>j h1. mat_stream IT_size h1 (sm_matrix v) (sm_row v + i) (sm_column v + j)
                  (dense_load IT_size junk h1 rhs i j)) h"

definition assign_storeu4 ::
  "nat \<Rightarrow> 'a list \<Rightarrow> DenseSubmatrix \<Rightarrow> 'a dense_rhs \<Rightarrow> nat \<Rightarrow> nat \<Rightarrow> 'a store \<Rightarrow> 'a store" where
  "assign_storeu4 IT_size junk v rhs i j h =
     (let h1 = mat_storeu IT_size h (sm_matrix v) (sm_row v + i) (sm_column v + j)
                 (dense_load IT_size junk h rhs i j);
          h2 = mat_storeu IT_size h1 (sm_matrix v) (sm_row v + i) (sm_column v + j + IT_size)
                 (dense_load IT_size junk h1 rhs i (j + IT_size));
          h3 = mat_storeu IT_size h2 (sm_matrix v) (sm_row v + i)
                 (sm_column v + j + IT_size * 2)
                 (dense_load IT_size junk h2 rhs i (j + IT_size * 2))
      in mat_storeu IT_size h3 (sm_matrix v) (sm_row v + i) (sm_column v + j + IT_size * 3)
           (dense_load IT_size junk h3 rhs i (j + IT_size * 3)))"

definition assign_storeu_row ::
  "nat \<Rightarrow> 'a list \<Rightarrow> DenseSubmatrix \<Rightarrow> 'a dense_rhs \<Rightarrow> nat \<Rightarrow> nat \<Rightarrow> 'a store \<Rightarrow> 'a store" where
  "assign_storeu_row IT_size junk v rhs jend i h =
     (let h1 = for_loop 0 jend (IT_size * 4) (assign_storeu4 IT_size junk v rhs i) h
      in for_loop jend (sm_n v) IT_size
           (\<lambda>j h2. sm_storeu IT_size h2 v i j (dense_load IT_size junk h2 rhs i j)) h1)"

definition assign_vectorized ::
  "nat \<Rightarrow> nat \<Rightarrow> nat \<Rightarrow> 'a list \<Rightarrow> 'a store \<Rightarrow> DenseSubmatrix \<Rightarrow> 'a dense_rhs \<Rightarrow> 'a store" where
  "assign_vectorized IT_size cacheSize sizeof_ElementType junk h v rhs =
     (if sm_aligned v
         \<and> size_t_mult (sm_m v) (sm_n v) > cacheSize div (sizeof_ElementType * 3)
         \<and> \<not> dense_isAliased rhs (sm_matrix v)
      then for_loop 0 (sm_m v) 1 (assign_stream_row IT_size junk v rhs) h
      else
        let jend = and_neg (sm_n v) (IT_size * 4)
        in for_loop 0 (sm_m v) 1 (assign_storeu_row IT_size junk v rhs jend) h)"

text \<open>The kernel \<^verbatim>\<open>assign( const SparseMatrix<MT2,SO>& rhs )\<close>.\<close>

definition assign_sparse_row ::
  "DenseSubmatrix \<Rightarrow> 'a sparse_matrix \<Rightarrow> nat \<Rightarrow> 'a store \<Rightarrow> 'a store" where
  "assign_sparse_row v rhs i h =
     fold (\<lambda>element h1.
             mat_set h1 (sm_matrix v) (sm_row v + i) (sm_column v + fst element) (snd element))
       (sp_row rhs i) h"

definition assign_sparse :: "'a store \<Rightarrow> DenseSubmatrix \<Rightarrow> 'a sparse_matrix \<Rightarrow> 'a store" where
  "assign_sparse h v rhs = for_loop 0 (sm_m v) 1 (assign_sparse_row v rhs) h"

text \<open>
  The free function \<^verbatim>\<open>assign( lhs, rhs )\<close> selects the kernel of the view by the type of
  the right-hand side and by \<^verbatim>\<open>VectorizedAssign\<close>.  All matrices of the model have the
  element type of the view.  The compile-time constants of that type are collected in a
  record: its \<^verbatim>\<open>vectorizable\<close> flag, \<^verbatim>\<open>IT::size\<close>, \<^verbatim>\<open>IT::addition\<close>,
  \<^verbatim>\<open>IT::subtraction\<close>, \<^verbatim>\<open>cacheSize\<close> and \<^verbatim>\<open>sizeof(ElementType)\<close>.
\<close>

record kernel_traits =
  tr_vectorizable :: bool
  tr_IT_size :: nat
  tr_addition :: bool
  tr_subtraction :: bool
  tr_cacheSize :: nat
  tr_sizeof :: nat

definition assign_dense ::
  "kernel_traits \<Rightarrow> 'a list \<Rightarrow> 'a store \<Rightarrow> DenseSubmatrix \<Rightarrow> 'a dense_rhs \<Rightarrow> 'a store" where
  "assign_dense T junk h v rhs =
     (if VectorizedAssign (tr_vectorizable T) (tr_vectorizable T) True
      then assign_vectorized (tr_IT_size T) (tr_cacheSize T) (tr_sizeof T) junk h v rhs
      else assign_default h v rhs)"

subsection \<open>Assignment operators\<close>

text \<open>
  An operator returns the store it leaves and the exception it throws, if any.

  The copy assignment \<^verbatim>\<open>operator=( const DenseSubmatrix& rhs )\<close>.  Identity of the two
  view objects (\<^verbatim>\<open>this == &rhs\<close>) is equality of the view values here; it implies the
  second disjunct of the test.  \<^verbatim>\<open>IsSparseMatrix<MT>::value\<close> is false for the dense
  matrix type of a \<^verbatim>\<open>DenseSubmatrix\<close>, so the \<^verbatim>\<open>reset()\<close> it guards does not run.
\<close>

definition op_assign_copy ::
  "kernel_traits \<Rightarrow> 'a list \<Rightarrow> 'a::zero store \<Rightarrow> DenseSubmatrix \<Rightarrow> DenseSubmatrix
     \<Rightarrow> error option \<times> 'a store" where
  "op_assign_copy T junk h this rhs =
     (if this = rhs \<or> (sm_matrix this = sm_matrix rhs \<and> sm_row this = sm_row rhs
                        \<and> sm_column this = sm_column rhs)
      then (None, h)
      else if sm_rows this \<noteq> sm_rows rhs \<or> sm_columns this \<noteq> sm_columns rhs
      then (Some (invalid_argument ''Submatrix sizes do not match''), h)
      else if sm_canAlias rhs (sm_matrix this)
      then let tmp = ResultType_ctor h (Sub rhs)
           in (None, assign_dense T junk h this (Tmp tmp))
      else (None, assign_dense T junk h this (Sub rhs)))"

text \<open>
  The interface of a right-hand side \<^verbatim>\<open>Matrix<MT2,SO2>\<close> of the same storage order.  A
  sparse matrix is an object of its own and aliases no dense matrix; its result type is
  a sparse matrix with the same elements.
\<close>

fun rhs_rows :: "'a store \<Rightarrow> 'a rhs \<Rightarrow> nat" where
  "rhs_rows h (Dense d) = dense_rows h d"
| "rhs_rows h (Sparse s) = sp_rows s"

fun rhs_columns :: "'a store \<Rightarrow> 'a rhs \<Rightarrow> nat" where
  "rhs_columns h (Dense d) = dense_columns h d"
| "rhs_columns h (Sparse s) = sp_columns s"

fun IsSparseMatrix :: "'a rhs \<Rightarrow> bool" where
  "IsSparseMatrix (Dense d) \<longleftrightarrow> False"
| "IsSparseMatrix (Sparse s) \<longleftrightarrow> True"

fun rhs_canAlias :: "'a rhs \<Rightarrow> addr \<Rightarrow> bool" where
  "rhs_canAlias (Dense d) alias \<longleftrightarrow> dense_canAlias d alias"
| "rhs_canAlias (Sparse s) alias \<longleftrightarrow> False"

fun rhs_ResultType :: "'a::zero store \<Rightarrow> 'a rhs \<Rightarrow> 'a rhs" where
  "rhs_ResultType h (Dense d) = Dense (Tmp (ResultType_ctor h d))"
| "rhs_ResultType h (Sparse s) = Sparse s"

fun assign_rhs ::
  "kernel_traits \<Rightarrow> 'a list \<Rightarrow> 'a store \<Rightarrow> DenseSubmatrix \<Rightarrow> 'a rhs \<Rightarrow> 'a store" where
  "assign_rhs T junk h v (Dense d) = assign_dense T junk h v d"
| "assign_rhs T junk h v (Sparse s) = assign_sparse h v s"

text \<open>The assignment \<^verbatim>\<open>operator=( const Matrix<MT2,SO2>& rhs )\<close>.\<close>

definition op_assign ::
  "kernel_traits \<Rightarrow> 'a list \<Rightarrow> 'a::zero store \<Rightarrow> DenseSubmatrix \<Rightarrow> 'a rhs
     \<Rightarrow> error option \<times> 'a store" where
  "op_assign T junk h this rhs =
     (if sm_rows this \<noteq> rhs_rows h rhs \<or> sm_columns this \<noteq> rhs_columns h rhs
      then (Some (invalid_argument ''Matrix sizes do not match''), h)
      else let h1 = (if IsSparseMatrix rhs then sm_reset h this else h)
           in if rhs_canAlias rhs (sm_matrix this)
              then let tmp = rhs_ResultType h1 rhs
                   in (None, assign_rhs T junk h1 this tmp)
              else (None, assign_rhs T junk h1 this rhs))"

subsection \<open>Compound assignment\<close>

text \<open>
  The kernels \<^verbatim>\<open>addAssign\<close> and \<^verbatim>\<open>subAssign\<close> differ in the arithmetic operator only,
  which is the parameter \<open>f\<close> of the three kernels below (\<open>+\<close> for \<^verbatim>\<open>addAssign\<close>,
  \<open>-\<close> for \<^verbatim>\<open>subAssign\<close>).  \<^verbatim>\<open>matrix_(i,j) += x\<close> reads and writes the element.
\<close>

definition mat_update :: "('a \<Rightarrow> 'a \<Rightarrow> 'a) \<Rightarrow> 'a store \<Rightarrow> addr \<Rightarrow> nat \<Rightarrow> nat \<Rightarrow> 'a \<Rightarrow> 'a store" where
  "mat_update f h a i j x = mat_set h a i j (f (mat_at h a i j) x)"

definition compound_default_pair ::
  "('a \<Rightarrow> 'a \<Rightarrow> 'a) \<Rightarrow> DenseSubmatrix \<Rightarrow> 'a dense_rhs \<Rightarrow> nat \<Rightarrow> nat \<Rightarrow> 'a store \<Rightarrow> 'a store" where
  "compound_default_pair f v rhs i j h =
     (let h1 = mat_update f h (sm_matrix v) (sm_row v + i) (sm_column v + j)
                 (dense_at h rhs i j)
      in mat_update f h1 (sm_matrix v) (sm_row v + i) (sm_column v + j + 1)
           (dense_at h1 rhs i (j + 1)))"

definition compound_default_row ::
  "('a \<Rightarrow> 'a \<Rightarrow> 'a) \<Rightarrow> DenseSubmatrix \<Rightarrow> 'a dense_rhs \<Rightarrow> nat \<Rightarrow> nat \<Rightarrow> 'a store \<Rightarrow> 'a store" where
  "compound_default_row f v rhs jend i h =
     (let h1 = for_loop 0 jend 2 (compound_default_pair f v rhs i) h
      in if jend < sm_n v
         then mat_update f h1 (sm_matrix v) (sm_row v + i) (sm_column v + jend)
                (dense_at h1 rhs i jend)
         else h1)"

definition compound_default ::
  "('a \<Rightarrow> 'a \<Rightarrow> 'a) \<Rightarrow> 'a store \<Rightarrow> DenseSubmatrix \<Rightarrow> 'a dense_rhs \<Rightarrow> 'a store" where
  "compound_default f h v rhs =
     (let jend = and_neg (sm_n v) 2
      in for_loop 0 (sm_m v) 1 (compound_default_row f v rhs jend) h)"

text \<open>
  In the intrinsic kernels the stored vector is \<^verbatim>\<open>load(i,j) + (~rhs).load(i,j)\<close>, the
  lane-wise sum (or difference) of a load from the view and a load from the right-hand
  side.
\<close>

definition compound_lanes ::
  "('a \<Rightarrow> 'a \<Rightarrow> 'a) \<Rightarrow> nat \<Rightarrow> 'a list \<Rightarrow> DenseSubmatrix \<Rightarrow> 'a dense_rhs \<Rightarrow> nat \<Rightarrow> nat
     \<Rightarrow> 'a store \<Rightarrow> 'a list" where
  "compound_lanes f IT_size junk v rhs i j h =
     map2 f (sm_loadu IT_size junk h v i j) (dense_load IT_size junk h rhs i j)"

definition compound_storeu4 ::
  "('a \<Rightarrow> 'a \<Rightarrow> 'a) \<Rightarrow> nat \<Rightarrow> 'a list \<Rightarrow> DenseSubmatrix \<Rightarrow> 'a dense_rhs \<Rightarrow> nat \<Rightarrow> nat
     \<Rightarrow> 'a store \<Rightarrow> 'a store" where
  "compound_storeu4 f IT_size junk v rhs i j h =
     (let h1 = mat_storeu IT_size h (sm_matrix v) (sm_row v + i) (sm_column v + j)
                 (compound_lanes f IT_size junk v rhs i j h);
          h2 = mat_storeu IT_size h1 (sm_matrix v) (sm_row v + i) (sm_column v + j + IT_size)
                 (compound_lanes f IT_size junk v rhs i (j + IT_size) h1);
          h3 = mat_storeu IT_size h2 (sm_matrix v) (sm_row v + i)
                 (sm_column v + j + IT_size * 2)
                 (compound_lanes f IT_size junk v rhs i (j + IT_size * 2) h2)
      in mat_storeu IT_size h3 (sm_matrix v) (sm_row v + i) (sm_column v + j + IT_size * 3)
           (compound_lanes f IT_size junk v rhs i (j + IT_size * 3) h3))"

definition compound_storeu_row ::
  "('a \<Rightarrow> 'a \<Rightarrow> 'a) \<Rightarrow> nat \<Rightarrow> 'a list \<Rightarrow> DenseSubmatrix \<Rightarrow> 'a dense_rhs \<Rightarrow> nat \<Rightarrow> nat
     \<Rightarrow> 'a store \<Rightarrow> 'a store" where
  "compound_storeu_row f IT_size junk v rhs jend i h =
     (let h1 = for_loop 0 jend (IT_size * 4) (compound_storeu4 f IT_size junk v rhs i) h
      in for_loop jend (sm_n v) IT_size
           (\<lambda>j h2. sm_storeu IT_size h2 v i j (compound_lanes f IT_size junk v rhs i j h2)) h1)"

definition compound_vectorized ::
  "('a \<Rightarrow> 'a \<Rightarrow> 'a) \<Rightarrow> nat \<Rightarrow> 'a list \<Rightarrow> 'a store \<Rightarrow> DenseSubmatrix \<Rightarrow> 'a dense_rhs \<Rightarrow> 'a store" where
  "compound_vectorized f IT_size junk h v rhs =
     (let jend = and_neg (sm_n v) (IT_size * 4)
      in for_loop 0 (sm_m v) 1 (compound_storeu_row f IT_size junk v rhs jend) h)"

definition compound_sparse_row ::
  "('a \<Rightarrow> 'a \<Rightarrow> 'a) \<Rightarrow> DenseSubmatrix \<Rightarrow> 'a sparse_matrix \<Rightarrow> nat \<Rightarrow> 'a store \<Rightarrow> 'a store" where
  "compound_sparse_row f v rhs i h =
     fold (\<lambda>element h1.
             mat_update f h1 (sm_matrix v) (sm_row v + i) (sm_column v + fst element)
               (snd element))
       (sp_row rhs i) h"

definition compound_sparse ::
  "('a \<Rightarrow> 'a \<Rightarrow> 'a) \<Rightarrow> 'a store \<Rightarrow> DenseSubmatrix \<Rightarrow> 'a sparse_matrix \<Rightarrow> 'a store" where
  "compound_sparse f h v rhs = for_loop 0 (sm_m v) 1 (compound_sparse_row f v rhs) h"

definition VectorizedAddAssign :: "bool \<Rightarrow> bool \<Rightarrow> bool \<Rightarrow> bool \<Rightarrow> bool" where
  "VectorizedAddAssign vectorizable vectorizable2 same_element_type addition \<longleftrightarrow>
     vectorizable \<and> vectorizable2 \<and> same_element_type \<and> addition"

definition VectorizedSubAssign :: "bool \<Rightarrow> bool \<Rightarrow> bool \<Rightarrow> bool \<Rightarrow> bool" where
  "VectorizedSubAssign vectorizable vectorizable2 same_element_type subtraction \<longleftrightarrow>
     vectorizable \<and> vectorizable2 \<and> same_element_type \<and> subtraction"

fun addAssign_rhs ::
  "kernel_traits \<Rightarrow> 'a list \<Rightarrow> 'a::plus store \<Rightarrow> DenseSubmatrix \<Rightarrow> 'a rhs \<Rightarrow> 'a store" where
  "addAssign_rhs T junk h v (Dense d) =
     (if VectorizedAddAssign (tr_vectorizable T) (tr_vectorizable T) True (tr_addition T)
      then compound_vectorized (+) (tr_IT_size T) junk h v d
      else compound_default (+) h v d)"
| "addAssign_rhs T junk h v (Sparse s) = compound_sparse (+) h v s"

fun subAssign_rhs ::
  "kernel_traits \<Rightarrow> 'a list \<Rightarrow> 'a::minus store \<Rightarrow> DenseSubmatrix \<Rightarrow> 'a rhs \<Rightarrow> 'a store" where
  "subAssign_rhs T junk h v (Dense d) =
     (if VectorizedSubAssign (tr_vectorizable T) (tr_vectorizable T) True (tr_subtraction T)
      then compound_vectorized (-) (tr_IT_size T) junk h v d
      else compound_default (-) h v d)"
| "subAssign_rhs T junk h v (Sparse s) = compound_sparse (-) h v s"

text \<open>\<^verbatim>\<open>operator+=( const Matrix<MT2,SO2>& rhs )\<close> and \<^verbatim>\<open>operator-=\<close>.\<close>

definition op_add_assign ::
  "kernel_traits \<Rightarrow> 'a list \<Rightarrow> 'a::{zero,plus} store \<Rightarrow> DenseSubmatrix \<Rightarrow> 'a rhs
     \<Rightarrow> error option \<times> 'a store" where
  "op_add_assign T junk h this rhs =
     (if sm_rows this \<noteq> rhs_rows h rhs \<or> sm_columns this \<noteq> rhs_columns h rhs
      then (Some (invalid_argument ''Matrix sizes do not match''), h)
      else if rhs_canAlias rhs (sm_matrix this)
      then let tmp = rhs_ResultType h rhs
           in (None, addAssign_rhs T junk h this tmp)
      else (None, addAssign_rhs T junk h this rhs))"

definition op_sub_assign ::
  "kernel_traits \<Rightarrow> 'a list \<Rightarrow> 'a::{zero,minus} store \<Rightarrow> DenseSubmatrix \<Rightarrow> 'a rhs
     \<Rightarrow> error option \<times> 'a store" where
  "op_sub_assign T junk h this rhs =
     (if sm_rows this \<noteq> rhs_rows h rhs \<or> sm_columns this \<noteq> rhs_columns h rhs
      then (Some (invalid_argument ''Matrix sizes do not match''), h)
      else if rhs_canAlias rhs (sm_matrix this)
      then let tmp = rhs_ResultType h rhs
           in (None, subAssign_rhs T junk h this tmp)
      else (None, subAssign_rhs T junk h this rhs))"

subsection \<open>Well-formed matrices and views\<close>

text \<open>The dimensions of a matrix are \<^verbatim>\<open>size_t\<close> values.\<close>

definition wf_matrix :: "'a dense_matrix \<Rightarrow> bool" where
  "wf_matrix M \<longleftrightarrow> mat_rows M < 2 ^ 64 \<and> mat_columns M < 2 ^ 64"

text \<open>
  A view that lies within its matrix, with the derived members as the constructor
  computes them.
\<close>

definition valid_view :: "nat \<Rightarrow> 'a store \<Rightarrow> DenseSubmatrix \<Rightarrow> bool" where
  "valid_view W h v \<longleftrightarrow>
     sm_row v + sm_m v \<le> mat_rows (h (sm_matrix v)) \<and>
     sm_column v + sm_n v \<le> mat_columns (h (sm_matrix v)) \<and>
     sm_rest v = sm_n v mod W \<and>
     sm_final v = sm_n v - sm_n v mod W \<and>
     (sm_aligned v \<longleftrightarrow> sm_column v mod W = 0 \<and>
        (sm_column v + sm_n v = mat_columns (h (sm_matrix v)) \<or> sm_n v mod W = 0))"

text \<open>
  Assigning the elements of a matrix \<open>src\<close> to a view one by one: the element \<open>(i,j)\<close> of
  \<open>src\<close> goes to the slot \<open>(row_+i, column_+j)\<close> of the matrix under the view, and every
  other slot keeps its value.
\<close>

definition assigned :: "'a store \<Rightarrow> DenseSubmatrix \<Rightarrow> (nat \<Rightarrow> nat \<Rightarrow> 'a) \<Rightarrow> nat \<Rightarrow> nat \<Rightarrow> 'a" where
  "assigned h v src r c =
     (if sm_row v \<le> r \<and> r < sm_row v + sm_m v \<and> sm_column v \<le> c \<and> c < sm_column v + sm_n v
      then src (r - sm_row v) (c - sm_column v)
      else mat_cell (h (sm_matrix v)) r c)"

text \<open>
  The reference of the assignment claims: a temporary assigned to a view element by
  element, in row-major order.
\<close>

definition assign_elementwise :: "'a store \<Rightarrow> DenseSubmatrix \<Rightarrow> 'a dense_matrix \<Rightarrow> 'a store" where
  "assign_elementwise h v tmp =
     for_loop 0 (sm_m v) 1
       (\<lambda>i h1. for_loop 0 (sm_n v) 1
          (\<lambda>j h2. mat_set h2 (sm_matrix v) (sm_row v + i) (sm_column v + j) (mat_cell tmp i j))
          h1) h"

text \<open>A dense right-hand side whose view, if it is one, is a valid view.\<close>

definition valid_rhs :: "nat \<Rightarrow> 'a store \<Rightarrow> 'a dense_rhs \<Rightarrow> bool" where
  "valid_rhs W h d = (case d of Sub w \<Rightarrow> valid_view W h w | _ \<Rightarrow> True)"

text \<open>
  The state of a kernel that has assigned the rows below \<open>i\<close> of the view and the first
  \<open>j\<close> elements of row \<open>i\<close>: relative to the initial store \<open>h0\<close>, the other matrices and
  the dimensions are unchanged, and every element of the matrix under the view is either
  assigned from \<open>src\<close> or unchanged.
\<close>

definition partial_assign ::
  "'a store \<Rightarrow> 'a store \<Rightarrow> DenseSubmatrix \<Rightarrow> (nat \<Rightarrow> nat \<Rightarrow> 'a) \<Rightarrow> nat \<Rightarrow> nat \<Rightarrow> bool" where
  "partial_assign h0 h v src i j \<longleftrightarrow>
     (\<forall>b. b \<noteq> sm_matrix v \<longrightarrow> h b = h0 b) \<and>
     mat_rows (h (sm_matrix v)) = mat_rows (h0 (sm_matrix v)) \<and>
     mat_columns (h (sm_matrix v)) = mat_columns (h0 (sm_matrix v)) \<and>
     (\<forall>r c. c < mat_columns (h0 (sm_matrix v)) \<longrightarrow>
        mat_cell (h (sm_matrix v)) r c =
          (if sm_column v \<le> c \<and> c < sm_column v + sm_n v \<and>
              (sm_row v \<le> r \<and> r < sm_row v + i \<or> r = sm_row v + i \<and> c < sm_column v + j)
           then src (r - sm_row v) (c - sm_column v)
           else mat_cell (h0 (sm_matrix v)) r c))"

text \<open>
  Two stores hold the same matrices: at every address the dimensions and all elements
  agree.  The padding of the rows is not compared.
\<close>

definition same_elements :: "'a store \<Rightarrow> 'a store \<Rightarrow> bool" where
  "same_elements h1 h2 \<longleftrightarrow>
     (\<forall>b. mat_rows (h1 b) = mat_rows (h2 b) \<and> mat_columns (h1 b) = mat_columns (h2 b) \<and>
          (\<forall>r c. c < mat_columns (h1 b) \<longrightarrow> mat_cell (h1 b) r c = mat_cell (h2 b) r c))"

text \<open>
  The element \<open>(i,j)\<close> of a sparse matrix (the default value where row \<open>i\<close> has no
  explicit element with index \<open>j\<close>), the well-formedness of its rows (distinct indices
  below the column count) and the number of its explicit elements.
\<close>

definition sparse_at :: "'a::zero sparse_matrix \<Rightarrow> nat \<Rightarrow> nat \<Rightarrow> 'a" where
  "sparse_at S i j = (case map_of (sp_row S i) j of Some x \<Rightarrow> x | None \<Rightarrow> 0)"

definition wf_sparse :: "'a sparse_matrix \<Rightarrow> bool" where
  "wf_sparse S \<longleftrightarrow>
     (\<forall>i < sp_rows S. distinct (map fst (sp_row S i)) \<and>
        (\<forall>e \<in> set (sp_row S i). fst e < sp_columns S))"

definition sparse_nonZeros :: "'a sparse_matrix \<Rightarrow> nat" where
  "sparse_nonZeros S = (\<Sum>i < sp_rows S. length (sp_row S i))"

subsection \<open>Concrete scenarios\<close>

text \<open>
  The 10 by 10 matrix with \<open>A(i,j) = i*10+j\<close>, a store that holds it at every address,
  and the view \<^verbatim>\<open>submatrix( A, 0, 0, 2, 2 )\<close> for a vector width of 4.
\<close>

definition A10 :: "int dense_matrix" where
  "A10 = \<lparr> mat_rows = 10, mat_columns = 10, mat_cell = (\<lambda>i j. int (i * 10 + j)) \<rparr>"

definition store_A10 :: "int store" where
  "store_A10 b = A10"

definition V22 :: DenseSubmatrix where
  "V22 = \<lparr> sm_matrix = 0, sm_row = 0, sm_column = 0, sm_m = 2, sm_n = 2,
           sm_rest = 2, sm_final = 0, sm_aligned = False \<rparr>"

text \<open>
  The element-type constants of a vectorizable type with two elements per SIMD vector, and
  the overlapping views \<^verbatim>\<open>submatrix( A, 0, 0, 4, 4 )\<close> and \<^verbatim>\<open>submatrix( A, 1, 1, 4, 4 )\<close>
  of the matrix at address 0 for that width.
\<close>

definition traits2 :: kernel_traits where
  "traits2 = \<lparr> tr_vectorizable = True, tr_IT_size = 2, tr_addition = True,
               tr_subtraction = True, tr_cacheSize = 3145728, tr_sizeof = 8 \<rparr>"

definition V00 :: DenseSubmatrix where
  "V00 = \<lparr> sm_matrix = 0, sm_row = 0, sm_column = 0, sm_m = 4, sm_n = 4,
           sm_rest = 0, sm_final = 4, sm_aligned = True \<rparr>"

definition V11 :: DenseSubmatrix where
  "V11 = \<lparr> sm_matrix = 0, sm_row = 1, sm_column = 1, sm_m = 4, sm_n = 4,
           sm_rest = 0, sm_final = 4, sm_aligned = False \<rparr>"

text \<open>A 4 by 4 sparse matrix with the three elements \<open>(0,1) = 5\<close>, \<open>(2,0) = 7\<close>, \<open>(2,3) = 9\<close>.\<close>

definition S3 :: "int sparse_matrix" where
  "S3 = \<lparr> sp_rows = 4, sp_columns = 4,
          sp_row = (\<lambda>i. if i = 0 then [(1, 5)] else if i = 2 then [(0, 7), (3, 9)] else []) \<rparr>"

section \<open>Properties of DynamicVector\<close>

lemma length_for_loop_update:
  "length (for_loop a e step (\<lambda>i w. w[i := f i]) v) = length v"
  by (induction a e step "\<lambda>i (w::'a list). w[i := f i]" v rule: for_loop.induct)
     (subst for_loop.simps, simp)

lemma nth_for_loop_update:
  "for_loop a e (Suc 0) (\<lambda>i w. w[i := f i]) v ! k =
     (if a \<le> k \<and> k < e \<and> k < length v then f k else v ! k)"
proof (induction "e - a" arbitrary: a v)
  case 0
  then show ?case by (subst for_loop.simps) auto
next
  case (Suc d)
  then have lt: "a < e" and d: "d = e - Suc a" by simp_all
  have "for_loop a e (Suc 0) (\<lambda>i w. w[i := f i]) v ! k =
        for_loop (Suc a) e (Suc 0) (\<lambda>i w. w[i := f i]) (v[a := f a]) ! k"
    using lt by (subst for_loop.simps) simp
  also have "\<dots> = (if Suc a \<le> k \<and> k < e \<and> k < length v then f k else v[a := f a] ! k)"
    using Suc.hyps(1) [OF d] by simp
  also have "\<dots> = (if a \<le> k \<and> k < e \<and> k < length v then f k else v ! k)"
    using lt by (cases "k = a") (auto simp: nth_list_update list_update_beyond)
  finally show ?case .
qed

lemma length_fill_default [simp]: "length (fill_default a e v) = length v"
  by (simp add: fill_default_def length_for_loop_update)

lemma nth_fill_default:
  "fill_default a e v ! k = (if a \<le> k \<and> k < e \<and> k < length v then 0 else v ! k)"
  by (simp add: fill_default_def nth_for_loop_update)

lemma length_std_copy [simp]: "length (std_copy src n dest) = length dest"
  by (simp add: std_copy_def length_for_loop_update)

lemma nth_std_copy:
  "std_copy src n dest ! k = (if k < n \<and> k < length dest then src ! k else dest ! k)"
  by (simp add: std_copy_def nth_for_loop_update)

lemma length_allocate [simp]: "length (allocate junk n) = n"
  by (simp add: allocate_def)

lemma adjustCapacity_fits:
  assumes "round_up_fits W n"
  shows "adjustCapacity True W n = n + (W - n mod W) mod W"
  using assms by (simp add: adjustCapacity_def size_t_add_def round_up_fits_def)
















lemma round_up_fits_5:
  assumes "0 < W" and "W < 2 ^ 64"
  shows "round_up_fits W 5"
proof (cases "W \<le> 5")
  case True
  have "(W - 5 mod W) mod W < W" using assms(1) by simp
  with True show ?thesis by (simp add: round_up_fits_def)
next
  case False
  then show ?thesis using assms(2) by (simp add: round_up_fits_def)
qed

text \<open>
  Claim C8.  A vector of numeric element type created with size 5 and arbitrary contents
  \<open>junk\<close>, after \<^verbatim>\<open>resize(3,true)\<close> and then \<^verbatim>\<open>resize(5,true)\<close>, has size 5, its
  elements at the indices \<open>0, 1, 2\<close> are the original ones, and its elements at the indices
  \<open>3, 4\<close> hold the default value.  The vector width is any positive \<^verbatim>\<open>size_t\<close> value.
\<close>

theorem resize_shrink_then_grow:
  assumes "0 < W" and "W < 2 ^ 64"
  shows "dv_size (resize True W junk2 (resize True W junk1 (DynamicVector_n True W junk 5) 3 True) 5 True) = 5 \<and>
         (\<forall>i<3. subscript (resize True W junk2 (resize True W junk1 (DynamicVector_n True W junk 5) 3 True) 5 True) i
                  = subscript (DynamicVector_n True W junk 5) i) \<and>
         (\<forall>i. 3 \<le> i \<and> i < 5 \<longrightarrow>
              subscript (resize True W junk2 (resize True W junk1 (DynamicVector_n True W junk 5) 3 True) 5 True) i = 0)"
proof -
  let ?x = "DynamicVector_n True W junk 5"
  have fits: "round_up_fits W 5" using assms by (rule round_up_fits_5)
  have cap: "dv_capacity ?x = 5 + (W - 5 mod W) mod W"
    using fits by (simp add: DynamicVector_n_def Let_def adjustCapacity_fits)
  have len: "length (dv_v ?x) = dv_capacity ?x"
    by (simp add: DynamicVector_n_def Let_def)
  have sz: "dv_size ?x = 5"
    by (simp add: DynamicVector_n_def Let_def)
  have r1: "resize True W junk1 ?x 3 True = ?x\<lparr> dv_v := fill_default 3 5 (dv_v ?x), dv_size := 3 \<rparr>"
    using cap sz by (simp add: resize_def)
  have r2: "resize True W junk2 (resize True W junk1 ?x 3 True) 5 True =
            ?x\<lparr> dv_v := fill_default 3 5 (dv_v ?x), dv_size := 5 \<rparr>"
    unfolding r1 using cap by (simp add: resize_def)
  show ?thesis
    unfolding r2 using cap len by (simp add: subscript_def nth_fill_default)
qed

theorem resize_shrink_then_grow_witness:
  "0 < (4::nat) \<and> (4::nat) < 2 ^ 64 \<and>
   subscript (resize True 4 int (resize True 4 int (DynamicVector_n True 4 int 5) 3 True) 5 True) 2
     = subscript (DynamicVector_n True 4 int 5) 2 \<and>
   subscript (resize True 4 int (resize True 4 int (DynamicVector_n True 4 int 5) 3 True) 5 True) 4 = 0"
  using resize_shrink_then_grow [of 4 int int int] by simp



section \<open>Construction of views and element access\<close>

lemma size_t_add_small: "a + b < 2 ^ 64 \<Longrightarrow> size_t_add a b = a + b"
  by (simp add: size_t_add_def)

lemma ctor_in_bounds:
  assumes "wf_matrix (h a)"
    and "row + m \<le> mat_rows (h a)" and "column + n \<le> mat_columns (h a)"
  shows "DenseSubmatrix_ctor W h a row column m n =
           Inr \<lparr> sm_matrix = a, sm_row = row, sm_column = column, sm_m = m, sm_n = n,
                 sm_rest = n mod W, sm_final = n - n mod W,
                 sm_aligned = (column mod W = 0 \<and>
                    (column + n = mat_columns (h a) \<or> n mod W = 0)) \<rparr>"
proof -
  have "row + m < 2 ^ 64" "column + n < 2 ^ 64"
    using assms by (simp_all add: wf_matrix_def)
  then show ?thesis
    using assms(2,3) by (simp add: DenseSubmatrix_ctor_def size_t_add_small)
qed

lemma ctor_valid_view:
  assumes "wf_matrix (h a)"
    and "row + m \<le> mat_rows (h a)" and "column + n \<le> mat_columns (h a)"
    and "DenseSubmatrix_ctor W h a row column m n = Inr v"
  shows "valid_view W h v"
  using assms(4) unfolding ctor_in_bounds [of h a, OF assms(1-3)]
  using assms(2,3) by (auto simp: valid_view_def)

lemma ctor_no_overflow_iff:
  assumes "row + m < 2 ^ 64" and "column + n < 2 ^ 64"
  shows "DenseSubmatrix_ctor W h a row column m n =
           Inl (invalid_argument ''Invalid submatrix specification'')
         \<longleftrightarrow> row + m > mat_rows (h a) \<or> column + n > mat_columns (h a)"
  using assms by (simp add: DenseSubmatrix_ctor_def size_t_add_small)

text \<open>
  Claim C1.  For every dense matrix and all view parameters with
  \<open>row + numRows \<le> rows\<close> and \<open>column + numCols \<le> columns\<close> of the matrix, the view is
  constructed, reports \<open>numRows\<close> rows and \<open>numCols\<close> columns, and its element \<open>(i,j)\<close> is
  the element \<open>(row+i, column+j)\<close> of the matrix for all \<open>i < numRows\<close> and
  \<open>j < numCols\<close>.  In particular \<^verbatim>\<open>submatrix( A, 2, 3, 4, 4 )\<close> on the 10 by 10 matrix with
  \<open>A(i,j) = i*10+j\<close> reports 4 rows and 4 columns, and its elements \<open>(0,0)\<close> and \<open>(3,3)\<close>
  are 23 and 56.
\<close>

theorem submatrix_element_access:
  "(wf_matrix (h a) \<and> row + numRows \<le> mat_rows (h a) \<and> column + numCols \<le> mat_columns (h a)
     \<longrightarrow> (\<exists>v. submatrix W h a row column numRows numCols = Inr v \<and>
              sm_rows v = numRows \<and> sm_columns v = numCols \<and>
              (\<forall>i<numRows. \<forall>j<numCols. sm_at h v i j = mat_at h a (row + i) (column + j))))
   \<and> (\<exists>v. submatrix W store_A10 0 2 3 4 4 = Inr v \<and> sm_rows v = 4 \<and> sm_columns v = 4 \<and>
            sm_at store_A10 v 0 0 = 23 \<and> sm_at store_A10 v 3 3 = 56)"
proof -
  have wf: "wf_matrix (store_A10 0)"
    by (simp add: wf_matrix_def store_A10_def A10_def)
  have "submatrix W store_A10 0 2 3 4 4 =
          Inr \<lparr> sm_matrix = 0, sm_row = 2, sm_column = 3, sm_m = 4, sm_n = 4,
                sm_rest = 4 mod W, sm_final = 4 - 4 mod W,
                sm_aligned = (3 mod W = 0 \<and> (3 + 4 = mat_columns (store_A10 0) \<or> 4 mod W = 0)) \<rparr>"
    unfolding submatrix_def
    by (rule ctor_in_bounds [of store_A10 0, OF wf]) (simp_all add: store_A10_def A10_def)
  then have 2: "\<exists>v. submatrix W store_A10 0 2 3 4 4 = Inr v \<and> sm_rows v = 4 \<and> sm_columns v = 4 \<and>
            sm_at store_A10 v 0 0 = 23 \<and> sm_at store_A10 v 3 3 = 56"
    by (simp add: sm_rows_def sm_columns_def sm_at_def mat_at_def store_A10_def A10_def)
  have 1: "\<exists>v. submatrix W h a row column numRows numCols = Inr v \<and>
              sm_rows v = numRows \<and> sm_columns v = numCols \<and>
              (\<forall>i<numRows. \<forall>j<numCols. sm_at h v i j = mat_at h a (row + i) (column + j))"
    if "wf_matrix (h a)" "row + numRows \<le> mat_rows (h a)" "column + numCols \<le> mat_columns (h a)"
    unfolding submatrix_def ctor_in_bounds [of h a, OF that]
    by (simp add: sm_rows_def sm_columns_def sm_at_def)
  from 1 2 show ?thesis by blast
qed

theorem submatrix_element_access_witness:
  "wf_matrix (store_A10 0) \<and> 2 + 4 \<le> mat_rows (store_A10 0) \<and> 3 + 4 \<le> mat_columns (store_A10 0) \<and>
   (\<exists>v. submatrix 4 store_A10 0 2 3 4 4 = Inr v \<and> sm_at store_A10 v 1 2 = mat_at store_A10 0 3 5)"
proof -
  have h: "wf_matrix (store_A10 0) \<and> 2 + 4 \<le> mat_rows (store_A10 0) \<and> 3 + 4 \<le> mat_columns (store_A10 0)"
    by (simp add: wf_matrix_def store_A10_def A10_def)
  with submatrix_element_access [of store_A10 0 2 4 3 4 4]
  obtain v where v: "submatrix 4 store_A10 0 2 3 4 4 = Inr v"
    and a: "\<forall>i<4. \<forall>j<4. sm_at store_A10 v i j = mat_at store_A10 0 (2 + i) (3 + j)"
    by blast
  from a [rule_format, of 1 2] have "sm_at store_A10 v 1 2 = mat_at store_A10 0 3 5"
    by simp
  with h v show ?thesis by blast
qed

text \<open>
  Claim C4 fails on the code.  On the 10 by 10 matrix the parameters \<open>row = 2^64 - 1\<close> and
  \<open>m = 2\<close> describe a view beyond the last row, but the constructor computes
  \<open>row + m\<close> as \<open>1\<close>, finds it within the 10 rows and returns the view instead of throwing
  \<^verbatim>\<open>std::invalid_argument\<close>.
\<close>

theorem ctor_accepts_wrapped_row:
  "mat_rows (store_A10 0) < (2 ^ 64 - 1) + 2 \<and>
   DenseSubmatrix_ctor 4 store_A10 0 (2 ^ 64 - 1) 0 2 1 =
     Inr \<lparr> sm_matrix = 0, sm_row = 2 ^ 64 - 1, sm_column = 0, sm_m = 2, sm_n = 1,
           sm_rest = 1, sm_final = 0, sm_aligned = False \<rparr>"
  by (simp add: DenseSubmatrix_ctor_def size_t_add_def store_A10_def A10_def)





section \<open>Assignment kernels and aliasing\<close>

lemma for_loop_stop: "\<not> i < e \<Longrightarrow> for_loop i e step body s = s"
  by (subst for_loop.simps) simp

lemma for_loop_step:
  "i < e \<Longrightarrow> 0 < step \<Longrightarrow> for_loop i e step body s = for_loop (i + step) e step body (body i s)"
  by (subst for_loop.simps) simp

lemma for_loop_invariant:
  assumes "0 < step" and "P i s"
    and "\<And>j t. P j t \<Longrightarrow> j < e \<Longrightarrow> P (j + step) (body j t)"
  shows "\<exists>j\<ge>e. P j (for_loop i e step body s)"
  using assms(2)
proof (induction "e - i" arbitrary: i s rule: less_induct)
  case less
  show ?case
  proof (cases "i < e")
    case True
    have "e - (i + step) < e - i" using True assms(1) by simp
    moreover have "P (i + step) (body i s)" using less.prems True by (rule assms(3))
    ultimately have "\<exists>j\<ge>e. P j (for_loop (i + step) e step body (body i s))"
      by (rule less.hyps)
    then show ?thesis using True assms(1) by (simp add: for_loop_step)
  next
    case False
    then have "e \<le> i \<and> P i (for_loop i e step body s)"
      using less.prems by (simp add: for_loop_stop)
    then show ?thesis by blast
  qed
qed

lemma mat_set_rows [simp]: "mat_rows (mat_set h a i j x b) = mat_rows (h b)"
  by (simp add: mat_set_def)

lemma mat_set_columns [simp]: "mat_columns (mat_set h a i j x b) = mat_columns (h b)"
  by (simp add: mat_set_def)

lemma mat_set_cell:
  "mat_cell (mat_set h a i j x b) r c =
     (if b = a \<and> r = i \<and> c = j then x else mat_cell (h b) r c)"
  by (simp add: mat_set_def)

lemma mat_set_other: "b \<noteq> a \<Longrightarrow> mat_set h a i j x b = h b"
  by (simp add: mat_set_def)

lemma mat_storeu_rows [simp]: "mat_rows (mat_storeu W h a i j val b) = mat_rows (h b)"
  by (simp add: mat_storeu_def)

lemma mat_storeu_columns [simp]: "mat_columns (mat_storeu W h a i j val b) = mat_columns (h b)"
  by (simp add: mat_storeu_def)

lemma mat_storeu_cell:
  "mat_cell (mat_storeu W h a i j val b) r c =
     (if b = a \<and> r = i \<and> j \<le> c \<and> c < j + W then val ! (c - j) else mat_cell (h b) r c)"
  by (simp add: mat_storeu_def)

lemma mat_storeu_other: "b \<noteq> a \<Longrightarrow> mat_storeu W h a i j val b = h b"
  by (simp add: mat_storeu_def)

lemma partial_assign_start: "partial_assign h h v src 0 0"
  by (auto simp: partial_assign_def)

lemma partial_assign_set:
  assumes "partial_assign h0 h v src i j" and "j < sm_n v" and "x = src i j"
  shows "partial_assign h0 (mat_set h (sm_matrix v) (sm_row v + i) (sm_column v + j) x) v src i (Suc j)"
  using assms unfolding partial_assign_def
  by (auto simp: mat_set_cell mat_set_other less_Suc_eq)

lemma partial_assign_storeu:
  assumes "partial_assign h0 h v src i j" and "j < sm_n v"
    and "j + W \<le> sm_n v \<or> sm_column v + sm_n v = mat_columns (h0 (sm_matrix v))"
    and "\<And>k. k < W \<Longrightarrow> j + k < sm_n v \<Longrightarrow> val ! k = src i (j + k)"
  shows "partial_assign h0 (mat_storeu W h (sm_matrix v) (sm_row v + i) (sm_column v + j) val) v src i (j + W)"
  unfolding partial_assign_def
proof (intro conjI allI impI)
  fix b assume "b \<noteq> sm_matrix v"
  then show "mat_storeu W h (sm_matrix v) (sm_row v + i) (sm_column v + j) val b = h0 b"
    using assms(1) by (simp add: mat_storeu_other partial_assign_def)
next
  show "mat_rows (mat_storeu W h (sm_matrix v) (sm_row v + i) (sm_column v + j) val (sm_matrix v)) =
        mat_rows (h0 (sm_matrix v))"
    using assms(1) by (simp add: partial_assign_def)
next
  show "mat_columns (mat_storeu W h (sm_matrix v) (sm_row v + i) (sm_column v + j) val (sm_matrix v)) =
        mat_columns (h0 (sm_matrix v))"
    using assms(1) by (simp add: partial_assign_def)
next
  fix r c assume c: "c < mat_columns (h0 (sm_matrix v))"
  let ?a = "sm_matrix v"
  have old: "mat_cell (h ?a) r c =
          (if sm_column v \<le> c \<and> c < sm_column v + sm_n v \<and>
              (sm_row v \<le> r \<and> r < sm_row v + i \<or> r = sm_row v + i \<and> c < sm_column v + j)
           then src (r - sm_row v) (c - sm_column v)
           else mat_cell (h0 ?a) r c)"
    using assms(1) c by (simp add: partial_assign_def)
  show "mat_cell (mat_storeu W h ?a (sm_row v + i) (sm_column v + j) val ?a) r c =
          (if sm_column v \<le> c \<and> c < sm_column v + sm_n v \<and>
              (sm_row v \<le> r \<and> r < sm_row v + i \<or> r = sm_row v + i \<and> c < sm_column v + (j + W))
           then src (r - sm_row v) (c - sm_column v)
           else mat_cell (h0 ?a) r c)"
  proof (cases "r = sm_row v + i \<and> sm_column v + j \<le> c \<and> c < sm_column v + j + W")
    case True
    then have inn: "c < sm_column v + sm_n v" using assms(3) c by auto
    let ?k = "c - (sm_column v + j)"
    have "?k < W" "j + ?k < sm_n v" using True inn by auto
    then have "val ! ?k = src i (j + ?k)" by (rule assms(4))
    moreover have "j + ?k = c - sm_column v" using True by auto
    ultimately show ?thesis using True inn by (simp add: mat_storeu_cell)
  next
    case False
    then show ?thesis unfolding mat_storeu_cell old by auto
  qed
qed

lemma partial_assign_past:
  assumes "partial_assign h0 h v src i j" and "sm_n v \<le> j" and "sm_n v \<le> j'"
  shows "partial_assign h0 h v src i j'"
  using assms unfolding partial_assign_def by auto

lemma partial_assign_next_row:
  assumes "partial_assign h0 h v src i j" and "sm_n v \<le> j"
  shows "partial_assign h0 h v src (Suc i) 0"
  using assms unfolding partial_assign_def by (auto simp: less_Suc_eq)


lemma word_and_not_mask_plus:
  fixes w :: "'a::len word"
  shows "(w AND NOT (mask k)) + (w AND mask k) = w"
proof -
  have "(w AND NOT (mask k)) AND (w AND mask k) = 0"
    by (rule bit_eqI) (auto simp: bit_simps)
  then have "(w AND NOT (mask k)) + (w AND mask k) = (w AND NOT (mask k)) OR (w AND mask k)"
    by (rule disjunctive_add_eq_or)
  also have "\<dots> = w"
    by (rule bit_eqI) (auto simp: bit_simps)
  finally show ?thesis .
qed

lemma word_and_not_mask_eq:
  fixes w :: "'a::len word"
  shows "w AND NOT (mask k) = w - take_bit k w"
  using word_and_not_mask_plus [of w k] by (simp add: take_bit_eq_mask algebra_simps)

lemma and_neg_pow2:
  assumes "n < 2 ^ 64" and "k < 64"
  shows "and_neg n (2 ^ k) = n - n mod 2 ^ k"
proof -
  let ?w = "word_of_nat n :: 64 word"
  have un: "unat ?w = n" using assms(1) by (simp add: unat_of_nat)
  have "word_of_int (- int (2 ^ k)) = (NOT (mask k) :: 64 word)"
    by (simp add: minus_exp_eq_not_mask [symmetric])
  then have "and_neg n (2 ^ k) = unat (?w - take_bit k ?w)"
    by (simp add: and_neg_def word_and_not_mask_eq)
  also have "\<dots> = unat ?w - unat (take_bit k ?w)"
  proof (rule unat_sub)
    have "unat (take_bit k ?w) \<le> unat ?w"
      by (simp add: unsigned_take_bit_eq take_bit_nat_less_eq_self)
    then show "take_bit k ?w \<le> ?w" by (simp add: word_le_nat_alt)
  qed
  also have "\<dots> = n - n mod 2 ^ k"
    by (metis take_bit_eq_mod un unsigned_take_bit_eq)
  finally show ?thesis .
qed

lemma and_neg_2:
  assumes "n < 2 ^ 64"
  shows "and_neg n 2 = n - n mod 2"
  using and_neg_pow2 [OF assms, of 1] by simp


lemma partial_assign_frame:
  "partial_assign h0 h v src i j \<Longrightarrow> b \<noteq> sm_matrix v \<Longrightarrow> h b = h0 b"
  by (simp add: partial_assign_def)

lemma dense_at_frame:
  assumes "\<And>b. b \<noteq> a \<Longrightarrow> h b = h0 b" and "\<not> dense_canAlias d a"
  shows "dense_at h d i j = dense_at h0 d i j"
  using assms by (cases d) (simp_all add: mat_at_def sm_at_def sm_canAlias_def)

lemma dense_load_frame:
  assumes "\<And>b. b \<noteq> a \<Longrightarrow> h b = h0 b" and "\<not> dense_canAlias d a"
  shows "dense_load W junk h d i j = dense_load W junk h0 d i j"
  using assms by (cases d) (simp_all add: mat_at_def sm_loadu_def sm_canAlias_def)

lemma mat_loadu_nth: "k < W \<Longrightarrow> mat_loadu W M i j ! k = mat_cell M i (j + k)"
  by (simp add: mat_loadu_def)

lemma dense_load_lane:
  assumes "valid_rhs W h d" and "length junk = W" and "k < W" and "j + k < dense_columns h d"
  shows "dense_load W junk h d i j ! k = dense_at h d i (j + k)"
proof (cases d)
  case (Mat b)
  then show ?thesis using assms(3) by (simp add: mat_loadu_nth mat_at_def)
next
  case (Tmp t)
  then show ?thesis using assms(3) by (simp add: mat_loadu_nth)
next
  case (Sub w)
  show ?thesis
  proof (cases "sm_aligned w \<or> j \<noteq> sm_final w")
    case True
    then show ?thesis
      using Sub assms(3) by (simp add: sm_loadu_def mat_loadu_nth sm_at_def mat_at_def add.assoc)
  next
    case False
    then have j: "j = sm_n w - sm_n w mod W" and r: "sm_rest w = sm_n w mod W"
      using assms(1) Sub by (simp_all add: valid_rhs_def valid_view_def)
    have "k < sm_rest w"
      using j r assms(4) Sub by (simp add: sm_columns_def)
    then show ?thesis
      using False Sub assms(2,3)
      by (simp add: sm_loadu_def nth_for_loop_update sm_at_def mat_at_def add.assoc)
  qed
qed


lemma assign_default_pair_partial:
  fixes d :: "'a dense_rhs"
  assumes na: "\<not> dense_canAlias d (sm_matrix v)"
    and p: "partial_assign h0 h v (dense_at h0 d) i j" and j: "j + 2 \<le> sm_n v"
  shows "partial_assign h0 (assign_default_pair v d i j h) v (dense_at h0 d) i (j + 2)"
proof -
  let ?src = "dense_at h0 d"
  let ?h1 = "mat_set h (sm_matrix v) (sm_row v + i) (sm_column v + j) (dense_at h d i j)"
  have e0: "dense_at h d i j = ?src i j"
    using partial_assign_frame [OF p] na by (rule dense_at_frame)
  have p1: "partial_assign h0 ?h1 v ?src i (Suc j)"
    by (rule partial_assign_set [OF p]) (use j e0 in simp_all)
  have e1: "dense_at ?h1 d i (j + 1) = ?src i (Suc j)"
    using partial_assign_frame [OF p1] na dense_at_frame [of "sm_matrix v" ?h1 h0 d i "j + 1"]
    by simp
  have "partial_assign h0
      (mat_set ?h1 (sm_matrix v) (sm_row v + i) (sm_column v + Suc j) (dense_at ?h1 d i (j + 1)))
      v ?src i (Suc (Suc j))"
    by (rule partial_assign_set [OF p1]) (use j e1 in simp_all)
  then show ?thesis by (simp add: assign_default_pair_def Let_def)
qed

lemma assign_default_row_partial:
  fixes d :: "'a dense_rhs"
  assumes n: "sm_n v < 2 ^ 64" and na: "\<not> dense_canAlias d (sm_matrix v)"
    and p: "partial_assign h0 h v (dense_at h0 d) i 0"
  shows "partial_assign h0 (assign_default_row v d (and_neg (sm_n v) 2) i h) v (dense_at h0 d) (Suc i) 0"
proof -
  let ?src = "dense_at h0 d"
  let ?jend = "and_neg (sm_n v) 2"
  let ?P = "\<lambda>j h1. partial_assign h0 h1 v ?src i j \<and> even j \<and> j \<le> ?jend"
  let ?h1 = "for_loop 0 ?jend 2 (assign_default_pair v d i) h"
  have jend: "?jend = sm_n v - sm_n v mod 2" using n by (rule and_neg_2)
  have ev: "even ?jend" unfolding jend by presburger
  have le: "?jend \<le> sm_n v" unfolding jend by simp
  have "\<exists>j\<ge>?jend. ?P j ?h1"
  proof (rule for_loop_invariant [where P = ?P], goal_cases)
    case 1
    show ?case by simp
  next
    case 2
    show ?case using p by simp
  next
    case (3 j t)
    then have "even j" "j < ?jend" by simp_all
    then have j2: "j + 2 \<le> ?jend" using ev by presburger
    with 3 le show ?case
      using assign_default_pair_partial [OF na, of h0 t i j] by simp
  qed
  then have p1: "partial_assign h0 ?h1 v ?src i ?jend"
    by (metis (no_types, lifting) le_antisym)
  show ?thesis
  proof (cases "?jend < sm_n v")
    case True
    then have sn: "sm_n v = Suc ?jend" using jend by presburger
    have e: "dense_at ?h1 d i ?jend = ?src i ?jend"
      using partial_assign_frame [OF p1] na by (rule dense_at_frame)
    have "partial_assign h0
        (mat_set ?h1 (sm_matrix v) (sm_row v + i) (sm_column v + ?jend) (dense_at ?h1 d i ?jend))
        v ?src i (Suc ?jend)"
      by (rule partial_assign_set [OF p1]) (use True e in simp_all)
    then have "partial_assign h0
        (mat_set ?h1 (sm_matrix v) (sm_row v + i) (sm_column v + ?jend) (dense_at ?h1 d i ?jend))
        v ?src (Suc i) 0"
      by (rule partial_assign_next_row) (use sn in simp)
    then show ?thesis using True by (simp add: assign_default_row_def Let_def)
  next
    case False
    then have "sm_n v \<le> ?jend" by simp
    with p1 have "partial_assign h0 ?h1 v ?src (Suc i) 0"
      by (rule partial_assign_next_row)
    then show ?thesis using False by (simp add: assign_default_row_def Let_def)
  qed
qed

lemma rows_invariant:
  assumes "\<And>i t. i < m \<Longrightarrow> partial_assign h0 t v src i 0 \<Longrightarrow> partial_assign h0 (body i t) v src (Suc i) 0"
    and "partial_assign h0 h v src 0 0"
  shows "partial_assign h0 (for_loop 0 m 1 body h) v src m 0"
proof -
  let ?Q = "\<lambda>i t. partial_assign h0 t v src i 0 \<and> i \<le> m"
  have "\<exists>i\<ge>m. ?Q i (for_loop 0 m 1 body h)"
  proof (rule for_loop_invariant [where P = ?Q], goal_cases)
    case 1
    show ?case by simp
  next
    case 2
    show ?case using assms(2) by simp
  next
    case (3 i t)
    then show ?case using assms(1) [of i t] by simp
  qed
  then show ?thesis by (metis (no_types, lifting) le_antisym)
qed

lemma assign_default_partial:
  fixes d :: "'a dense_rhs"
  assumes n: "sm_n v < 2 ^ 64" and na: "\<not> dense_canAlias d (sm_matrix v)"
  shows "partial_assign h (assign_default h v d) v (dense_at h d) (sm_m v) 0"
  unfolding assign_default_def Let_def
  by (rule rows_invariant) (simp_all add: assign_default_row_partial [OF n na] partial_assign_start)

lemma dvd_step_le:
  fixes s :: nat
  assumes "s dvd j" and "s dvd e" and "j < e"
  shows "j + s \<le> e"
proof -
  have "s dvd e - j" using assms(1,2) by (rule dvd_diff_nat [rotated])
  moreover have "0 < e - j" using assms(3) by simp
  ultimately have "s \<le> e - j" by (rule dvd_imp_le)
  then show ?thesis using assms(3) by simp
qed

lemma last_block:
  fixes W :: nat
  assumes "W dvd j" and "j < n" and "n < j + W"
  shows "j = n - n mod W" and "n mod W \<noteq> 0"
proof -
  obtain q where q: "j = q * W" using assms(1) by (auto simp: dvd_def mult.commute)
  have W: "0 < W" using assms(2,3) by simp
  have "n div W = q"
  proof (rule div_nat_eqI)
    show "W * q \<le> n" using q assms(2) by (simp add: mult.commute)
    show "n < W * Suc q" using q assms(3) by (simp add: mult.commute)
  qed
  then have "n mod W = n - q * W"
    using div_mult_mod_eq [of n W] by (metis add_diff_cancel_left')
  then show "j = n - n mod W" "n mod W \<noteq> 0" using q assms(2) by simp_all
qed

lemma storeu_load_partial:
  fixes d :: "'a dense_rhs"
  assumes na: "\<not> dense_canAlias d (sm_matrix v)" and vr: "valid_rhs W h0 d"
    and len: "length junk = W" and cols: "dense_columns h0 d = sm_n v"
    and p: "partial_assign h0 h v (dense_at h0 d) i j" and j: "j < sm_n v"
    and fit: "j + W \<le> sm_n v \<or> sm_column v + sm_n v = mat_columns (h0 (sm_matrix v))"
  shows "partial_assign h0
           (mat_storeu W h (sm_matrix v) (sm_row v + i) (sm_column v + j) (dense_load W junk h d i j))
           v (dense_at h0 d) i (j + W)"
proof (rule partial_assign_storeu [OF p j fit])
  fix k assume k: "k < W" "j + k < sm_n v"
  have "dense_load W junk h d i j = dense_load W junk h0 d i j"
    using partial_assign_frame [OF p] na by (rule dense_load_frame)
  then show "dense_load W junk h d i j ! k = dense_at h0 d i (j + k)"
    using dense_load_lane [OF vr len k(1), of j i] k(2) cols by simp
qed

lemma assign_storeu4_partial:
  fixes d :: "'a dense_rhs"
  assumes na: "\<not> dense_canAlias d (sm_matrix v)" and vr: "valid_rhs W h0 d"
    and len: "length junk = W" and cols: "dense_columns h0 d = sm_n v" and W: "0 < W"
    and p: "partial_assign h0 h v (dense_at h0 d) i j" and j: "j + W * 4 \<le> sm_n v"
  shows "partial_assign h0 (assign_storeu4 W junk v d i j h) v (dense_at h0 d) i (j + W * 4)"
proof -
  let ?src = "dense_at h0 d"
  note step = storeu_load_partial [OF na vr len cols]
  define h1 where "h1 = mat_storeu W h (sm_matrix v) (sm_row v + i) (sm_column v + j)
                 (dense_load W junk h d i j)"
  define h2 where "h2 = mat_storeu W h1 (sm_matrix v) (sm_row v + i) (sm_column v + j + W)
                 (dense_load W junk h1 d i (j + W))"
  define h3 where "h3 = mat_storeu W h2 (sm_matrix v) (sm_row v + i) (sm_column v + j + W * 2)
                 (dense_load W junk h2 d i (j + W * 2))"
  define h4 where "h4 = mat_storeu W h3 (sm_matrix v) (sm_row v + i) (sm_column v + j + W * 3)
                 (dense_load W junk h3 d i (j + W * 3))"
  have p1: "partial_assign h0 h1 v ?src i (j + W)"
    unfolding h1_def by (rule step [OF p]) (use j W in simp_all)
  have a: "j + W + W = j + W * 2" "j + W * 2 + W = j + W * 3" "j + W * 3 + W = j + W * 4"
    by simp_all
  have p2: "partial_assign h0 h2 v ?src i (j + W * 2)"
    using step [OF p1] j W unfolding a by (simp add: h2_def add.assoc)
  have p3: "partial_assign h0 h3 v ?src i (j + W * 3)"
    using step [OF p2] j W unfolding a by (simp add: h3_def add.assoc)
  have p4: "partial_assign h0 h4 v ?src i (j + W * 4)"
    using step [OF p3] j W unfolding a by (simp add: h4_def add.assoc)
  have "assign_storeu4 W junk v d i j h = h4"
    by (simp add: assign_storeu4_def Let_def h1_def h2_def h3_def h4_def)
  then show ?thesis using p4 by simp
qed

lemma overshoot_in_padding:
  assumes vv: "valid_view W h0 v" and dj: "W dvd j" and j: "j < sm_n v"
    and al: "sm_aligned v \<or> j \<noteq> sm_final v"
  shows "j + W \<le> sm_n v \<or> sm_column v + sm_n v = mat_columns (h0 (sm_matrix v))"
proof (cases "j + W \<le> sm_n v")
  case True
  then show ?thesis by simp
next
  case False
  then have "sm_n v < j + W" by simp
  with dj j have "j = sm_n v - sm_n v mod W" and r: "sm_n v mod W \<noteq> 0"
    by (rule last_block)+
  then have "j = sm_final v" using vv by (simp add: valid_view_def)
  with al have "sm_aligned v" by simp
  then show ?thesis using vv r by (simp add: valid_view_def)
qed

lemma sm_storeu_partial:
  fixes d :: "'a dense_rhs"
  assumes na: "\<not> dense_canAlias d (sm_matrix v)" and vr: "valid_rhs W h0 d"
    and len: "length junk = W" and cols: "dense_columns h0 d = sm_n v"
    and vv: "valid_view W h0 v" and W: "0 < W"
    and p: "partial_assign h0 h v (dense_at h0 d) i j" and j: "j < sm_n v" and dj: "W dvd j"
  shows "partial_assign h0 (sm_storeu W h v i j (dense_load W junk h d i j)) v (dense_at h0 d) i (j + W)"
proof (cases "sm_aligned v \<or> j \<noteq> sm_final v")
  case True
  have "partial_assign h0
           (mat_storeu W h (sm_matrix v) (sm_row v + i) (sm_column v + j) (dense_load W junk h d i j))
           v (dense_at h0 d) i (j + W)"
    using na vr len cols p j overshoot_in_padding [OF vv dj j True]
    by (rule storeu_load_partial)
  then show ?thesis using True by (simp add: sm_storeu_def)
next
  case False
  let ?src = "dense_at h0 d"
  let ?val = "dense_load W junk h d i j"
  let ?body = "\<lambda>k t. mat_set t (sm_matrix v) (sm_row v + i) (sm_column v + j + k) (?val ! k)"
  let ?R = "\<lambda>k t. partial_assign h0 t v ?src i (j + k) \<and> k \<le> sm_rest v"
  from False vv have jf: "j = sm_n v - sm_n v mod W" and r: "sm_rest v = sm_n v mod W"
    by (simp_all add: valid_view_def)
  have rW: "sm_rest v < W" using r W by simp
  have jr: "j + sm_rest v = sm_n v" using jf r by simp
  have val: "?val = dense_load W junk h0 d i j"
    using partial_assign_frame [OF p] na by (rule dense_load_frame)
  have "\<exists>k\<ge>sm_rest v. ?R k (for_loop 0 (sm_rest v) 1 ?body h)"
  proof (rule for_loop_invariant [where P = ?R], goal_cases)
    case 1
    show ?case by simp
  next
    case 2
    show ?case using p by simp
  next
    case (3 k t)
    then have pk: "partial_assign h0 t v ?src i (j + k)" and k: "k < sm_rest v" by simp_all
    have kW: "k < W" and jk: "j + k < sm_n v" using k rW jr by simp_all
    have "?val ! k = ?src i (j + k)"
      unfolding val using dense_load_lane [OF vr len kW, of j i] jk cols by simp
    then have "partial_assign h0
        (mat_set t (sm_matrix v) (sm_row v + i) (sm_column v + (j + k)) (?val ! k)) v ?src i (Suc (j + k))"
      using jk by (intro partial_assign_set [OF pk]) simp_all
    then show ?case using k by (simp add: add.assoc)
  qed
  then have "partial_assign h0 (for_loop 0 (sm_rest v) 1 ?body h) v ?src i (j + sm_rest v)"
    by (metis (no_types, lifting) le_antisym)
  then have "partial_assign h0 (for_loop 0 (sm_rest v) 1 ?body h) v ?src i (j + W)"
    by (rule partial_assign_past) (use jr rW in simp_all)
  then show ?thesis using False by (simp add: sm_storeu_def)
qed

lemma assign_storeu_row_partial:
  fixes d :: "'a dense_rhs"
  assumes na: "\<not> dense_canAlias d (sm_matrix v)" and vr: "valid_rhs W h0 d"
    and len: "length junk = W" and cols: "dense_columns h0 d = sm_n v"
    and vv: "valid_view W h0 v" and pow: "W * 4 = 2 ^ k" "k < 64" and n: "sm_n v < 2 ^ 64"
    and p: "partial_assign h0 h v (dense_at h0 d) i 0"
  shows "partial_assign h0 (assign_storeu_row W junk v d (and_neg (sm_n v) (W * 4)) i h)
           v (dense_at h0 d) (Suc i) 0"
proof -
  let ?src = "dense_at h0 d"
  let ?jend = "and_neg (sm_n v) (W * 4)"
  have W: "0 < W" using pow(1) by (cases W) simp_all
  have jend: "?jend = sm_n v - sm_n v mod (W * 4)"
    unfolding pow(1) using n pow(2) by (rule and_neg_pow2)
  have d4: "W * 4 dvd ?jend" unfolding jend by (simp add: dvd_minus_mod)
  then have d1: "W dvd ?jend" by (rule dvd_mult_left)
  have le: "?jend \<le> sm_n v" unfolding jend by simp
  let ?P = "\<lambda>j t. partial_assign h0 t v ?src i j \<and> W * 4 dvd j \<and> j \<le> ?jend"
  let ?h1 = "for_loop 0 ?jend (W * 4) (assign_storeu4 W junk v d i) h"
  have "\<exists>j\<ge>?jend. ?P j ?h1"
  proof (rule for_loop_invariant [where P = ?P], goal_cases)
    case 1
    show ?case using W by simp
  next
    case 2
    show ?case using p by simp
  next
    case (3 j t)
    then have pj: "partial_assign h0 t v ?src i j" and "W * 4 dvd j" "j < ?jend" by simp_all
    then have j4: "j + W * 4 \<le> ?jend" using d4 by (intro dvd_step_le)
    then have "partial_assign h0 (assign_storeu4 W junk v d i j t) v ?src i (j + W * 4)"
      using le by (intro assign_storeu4_partial [OF na vr len cols W pj]) simp
    then show ?case using j4 \<open>W * 4 dvd j\<close> by simp
  qed
  then have p1: "partial_assign h0 ?h1 v ?src i ?jend"
    by (metis (no_types, lifting) le_antisym)
  let ?P' = "\<lambda>j t. partial_assign h0 t v ?src i j \<and> W dvd j"
  let ?h2 = "for_loop ?jend (sm_n v) W
               (\<lambda>j h2. sm_storeu W h2 v i j (dense_load W junk h2 d i j)) ?h1"
  have "\<exists>j\<ge>sm_n v. ?P' j ?h2"
  proof (rule for_loop_invariant [where P = ?P'], goal_cases)
    case 1
    show ?case using W by simp
  next
    case 2
    show ?case using p1 d1 by simp
  next
    case (3 j t)
    then show ?case
      using sm_storeu_partial [OF na vr len cols vv W, of t i j] by simp
  qed
  then obtain j where "sm_n v \<le> j" "partial_assign h0 ?h2 v ?src i j" by blast
  then have "partial_assign h0 ?h2 v ?src (Suc i) 0"
    by (intro partial_assign_next_row)
  then show ?thesis by (simp add: assign_storeu_row_def Let_def)
qed

lemma assign_stream_row_partial:
  fixes d :: "'a dense_rhs"
  assumes na: "\<not> dense_canAlias d (sm_matrix v)" and vr: "valid_rhs W h0 d"
    and len: "length junk = W" and cols: "dense_columns h0 d = sm_n v"
    and vv: "valid_view W h0 v" and W: "0 < W" and al: "sm_aligned v"
    and p: "partial_assign h0 h v (dense_at h0 d) i 0"
  shows "partial_assign h0 (assign_stream_row W junk v d i h) v (dense_at h0 d) (Suc i) 0"
proof -
  let ?src = "dense_at h0 d"
  let ?P = "\<lambda>j t. partial_assign h0 t v ?src i j \<and> W dvd j"
  let ?h1 = "for_loop 0 (sm_n v) W
               (\<lambda>j h1. mat_stream W h1 (sm_matrix v) (sm_row v + i) (sm_column v + j)
                  (dense_load W junk h1 d i j)) h"
  have "\<exists>j\<ge>sm_n v. ?P j ?h1"
  proof (rule for_loop_invariant [where P = ?P], goal_cases)
    case 1
    show ?case using W by simp
  next
    case 2
    show ?case using p by simp
  next
    case (3 j t)
    then have pj: "partial_assign h0 t v ?src i j" and dj: "W dvd j" and j: "j < sm_n v"
      by simp_all
    have "partial_assign h0
           (mat_storeu W t (sm_matrix v) (sm_row v + i) (sm_column v + j) (dense_load W junk t d i j))
           v ?src i (j + W)"
      using na vr len cols pj j overshoot_in_padding [OF vv dj j] al
      by (intro storeu_load_partial) simp_all
    then show ?case using dj by (simp add: mat_stream_def)
  qed
  then obtain j where "sm_n v \<le> j" "partial_assign h0 ?h1 v ?src i j" by blast
  then have "partial_assign h0 ?h1 v ?src (Suc i) 0"
    by (intro partial_assign_next_row)
  then show ?thesis by (simp add: assign_stream_row_def)
qed

lemma assign_vectorized_partial:
  fixes d :: "'a dense_rhs"
  assumes na: "\<not> dense_canAlias d (sm_matrix v)" and vr: "valid_rhs W h d"
    and len: "length junk = W" and cols: "dense_columns h d = sm_n v"
    and vv: "valid_view W h v" and pow: "W * 4 = 2 ^ k" "k < 64" and n: "sm_n v < 2 ^ 64"
  shows "partial_assign h (assign_vectorized W cs sz junk h v d) v (dense_at h d) (sm_m v) 0"
proof -
  have W: "0 < W" using pow(1) by (cases W) simp_all
  let ?stream = "sm_aligned v \<and> size_t_mult (sm_m v) (sm_n v) > cs div (sz * 3)
                   \<and> \<not> dense_isAliased d (sm_matrix v)"
  show ?thesis
  proof (cases ?stream)
    case True
    have "partial_assign h (for_loop 0 (sm_m v) 1 (assign_stream_row W junk v d) h)
            v (dense_at h d) (sm_m v) 0"
    proof (rule rows_invariant)
      show "partial_assign h h v (dense_at h d) 0 0" by (rule partial_assign_start)
    next
      fix i t assume "partial_assign h t v (dense_at h d) i 0"
      with na vr len cols vv W show
        "partial_assign h (assign_stream_row W junk v d i t) v (dense_at h d) (Suc i) 0"
        using True by (intro assign_stream_row_partial) simp_all
    qed
    then show ?thesis using True by (simp add: assign_vectorized_def)
  next
    case False
    have "partial_assign h
            (for_loop 0 (sm_m v) 1 (assign_storeu_row W junk v d (and_neg (sm_n v) (W * 4))) h)
            v (dense_at h d) (sm_m v) 0"
    proof (rule rows_invariant)
      show "partial_assign h h v (dense_at h d) 0 0" by (rule partial_assign_start)
    next
      fix i t assume "partial_assign h t v (dense_at h d) i 0"
      with na vr len cols vv pow n show
        "partial_assign h (assign_storeu_row W junk v d (and_neg (sm_n v) (W * 4)) i t)
           v (dense_at h d) (Suc i) 0"
        by (rule assign_storeu_row_partial)
    qed
    then show ?thesis using False by (auto simp add: assign_vectorized_def Let_def)
  qed
qed

lemma partial_assign_same_elements:
  assumes "partial_assign h0 h1 v src m 0" and "partial_assign h0 h2 v src m 0"
  shows "same_elements h1 h2"
  unfolding same_elements_def
proof (intro allI conjI impI)
  fix b
  show "mat_rows (h1 b) = mat_rows (h2 b)"
    using assms by (cases "b = sm_matrix v") (simp_all add: partial_assign_def)
  show c: "mat_columns (h1 b) = mat_columns (h2 b)"
    using assms by (cases "b = sm_matrix v") (simp_all add: partial_assign_def)
  fix r c assume "c < mat_columns (h1 b)"
  then show "mat_cell (h1 b) r c = mat_cell (h2 b) r c"
    using assms by (cases "b = sm_matrix v") (simp_all add: partial_assign_def)
qed

lemma partial_assign_cong:
  assumes "partial_assign h0 h v src m 0"
    and "m = sm_m v" and "\<And>i j. i < sm_m v \<Longrightarrow> j < sm_n v \<Longrightarrow> src i j = src' i j"
  shows "partial_assign h0 h v src' m 0"
  using assms unfolding partial_assign_def by auto

lemma partial_assign_sm_at:
  assumes "partial_assign h0 h v src (sm_m v) 0"
    and "sm_column v + sm_n v \<le> mat_columns (h0 (sm_matrix v))"
    and "i < sm_m v" and "j < sm_n v"
  shows "sm_at h v i j = src i j"
  using assms unfolding partial_assign_def sm_at_def mat_at_def by auto

lemma assign_elementwise_partial:
  "partial_assign h (assign_elementwise h v tmp) v (mat_cell tmp) (sm_m v) 0"
  unfolding assign_elementwise_def
proof (rule rows_invariant)
  show "partial_assign h h v (mat_cell tmp) 0 0" by (rule partial_assign_start)
next
  fix i t assume p: "partial_assign h t v (mat_cell tmp) i 0"
  let ?P = "\<lambda>j t'. partial_assign h t' v (mat_cell tmp) i j \<and> j \<le> sm_n v"
  let ?t = "for_loop 0 (sm_n v) 1
              (\<lambda>j h2. mat_set h2 (sm_matrix v) (sm_row v + i) (sm_column v + j) (mat_cell tmp i j)) t"
  have "\<exists>j\<ge>sm_n v. ?P j ?t"
  proof (rule for_loop_invariant [where P = ?P], goal_cases)
    case 1
    show ?case by simp
  next
    case 2
    show ?case using p by simp
  next
    case (3 j t')
    then show ?case
      using partial_assign_set [of h t' v "mat_cell tmp" i j "mat_cell tmp i j"] by simp
  qed
  then obtain j where "sm_n v \<le> j" "partial_assign h ?t v (mat_cell tmp) i j" by blast
  then show "partial_assign h ?t v (mat_cell tmp) (Suc i) 0"
    by (intro partial_assign_next_row)
qed

lemma pow2_times_4:
  fixes W :: nat
  assumes "W = 2 ^ p" and "p < 62"
  shows "W * 4 = 2 ^ (p + 2)" and "p + 2 < 64"
  using assms by simp_all

lemma valid_view_n_bound:
  assumes "valid_view W h v" and "wf_matrix (h (sm_matrix v))"
  shows "sm_n v < 2 ^ 64"
  using assms by (simp add: valid_view_def wf_matrix_def)

lemma assign_dense_partial:
  fixes d :: "'a dense_rhs"
  assumes na: "\<not> dense_canAlias d (sm_matrix v)" and vr: "valid_rhs (tr_IT_size T) h d"
    and len: "length junk = tr_IT_size T" and cols: "dense_columns h d = sm_n v"
    and vv: "valid_view (tr_IT_size T) h v" and wf: "wf_matrix (h (sm_matrix v))"
    and pow: "tr_IT_size T = 2 ^ p" "p < 62"
  shows "partial_assign h (assign_dense T junk h v d) v (dense_at h d) (sm_m v) 0"
proof -
  have n: "sm_n v < 2 ^ 64" using vv wf by (rule valid_view_n_bound)
  show ?thesis
    unfolding assign_dense_def
    using assign_default_partial [OF n na, of h]
      assign_vectorized_partial [OF na vr len cols vv pow2_times_4 [OF pow] n]
    by simp
qed

lemma assign_dense_dispatch:
  "assign_dense T junk h v d =
     (if tr_vectorizable T
      then assign_vectorized (tr_IT_size T) (tr_cacheSize T) (tr_sizeof T) junk h v d
      else assign_default h v d)"
  by (simp add: assign_dense_def VectorizedAssign_def)



lemma ResultType_ctor_cell:
  "i < dense_rows h d \<Longrightarrow> j < dense_columns h d \<Longrightarrow> mat_cell (ResultType_ctor h d) i j = dense_at h d i j"
  by (simp add: ResultType_ctor_def)

lemma assign_from_tmp:
  fixes d :: "'a::zero dense_rhs"
  assumes vv: "valid_view (tr_IT_size T) h v" and wf: "wf_matrix (h (sm_matrix v))"
    and cols: "dense_columns h d = sm_n v"
    and pow: "tr_IT_size T = 2 ^ p" "p < 62" and len: "length junk = tr_IT_size T"
  shows "same_elements (assign_dense T junk h v (Tmp (ResultType_ctor h d)))
           (assign_elementwise h v (ResultType_ctor h d))"
proof -
  let ?tmp = "ResultType_ctor h d"
  have "partial_assign h (assign_dense T junk h v (Tmp ?tmp)) v (dense_at h (Tmp ?tmp)) (sm_m v) 0"
    by (rule assign_dense_partial [OF _ _ len _ vv wf pow])
       (simp_all add: valid_rhs_def ResultType_ctor_def cols)
  then have "partial_assign h (assign_dense T junk h v (Tmp ?tmp)) v (mat_cell ?tmp) (sm_m v) 0"
    by (rule partial_assign_cong) simp_all
  then show ?thesis
    using assign_elementwise_partial by (rule partial_assign_same_elements)
qed

lemma assign_direct:
  fixes d :: "'a::zero dense_rhs"
  assumes vv: "valid_view (tr_IT_size T) h v" and wf: "wf_matrix (h (sm_matrix v))"
    and vr: "valid_rhs (tr_IT_size T) h d" and na: "\<not> dense_canAlias d (sm_matrix v)"
    and rows: "dense_rows h d = sm_m v" and cols: "dense_columns h d = sm_n v"
    and pow: "tr_IT_size T = 2 ^ p" "p < 62" and len: "length junk = tr_IT_size T"
  shows "same_elements (assign_dense T junk h v d)
           (assign_elementwise h v (ResultType_ctor h d))"
proof -
  let ?tmp = "ResultType_ctor h d"
  have "partial_assign h (assign_dense T junk h v d) v (dense_at h d) (sm_m v) 0"
    using na vr len cols vv wf pow by (rule assign_dense_partial)
  then have "partial_assign h (assign_dense T junk h v d) v (mat_cell ?tmp) (sm_m v) 0"
    by (rule partial_assign_cong) (simp_all add: ResultType_ctor_cell rows cols)
  then show ?thesis
    using assign_elementwise_partial by (rule partial_assign_same_elements)
qed

lemma assign_own_elements:
  fixes h :: "'a::zero store"
  assumes "sm_matrix rhs = sm_matrix v" and "sm_row rhs = sm_row v" and "sm_column rhs = sm_column v"
    and "sm_m rhs = sm_m v" and "sm_n rhs = sm_n v"
  shows "same_elements h (assign_elementwise h v (ResultType_ctor h (Sub rhs)))"
proof -
  let ?tmp = "ResultType_ctor h (Sub rhs)"
  have "partial_assign h h v (mat_cell ?tmp) (sm_m v) 0"
    unfolding partial_assign_def using assms
    by (auto simp: ResultType_ctor_def sm_rows_def sm_columns_def sm_at_def mat_at_def)
  then show ?thesis
    using assign_elementwise_partial by (rule partial_assign_same_elements)
qed

text \<open>
  Claim C2.  Assigning a view \<open>rhs\<close> to a shape-matched view, by the copy assignment or by
  the assignment from a matrix, throws nothing and leaves the same matrices as copying
  \<open>rhs\<close> into a temporary first and assigning the temporary element by element; this holds
  whether or not the two views are views of the same matrix and whether or not they
  overlap.  When they are views of the same matrix, the kernel runs on the temporary in
  which \<open>rhs\<close> was materialised before any write, except that the copy assignment returns
  at once for a right-hand side with the row and column offsets of the target.
\<close>

theorem assignment_under_aliasing:
  fixes h :: "'a::zero store"
  assumes vt: "valid_view (tr_IT_size T) h this" and wf: "wf_matrix (h (sm_matrix this))"
    and vr: "valid_view (tr_IT_size T) h rhs"
    and rows: "sm_rows rhs = sm_rows this" and cols: "sm_columns rhs = sm_columns this"
    and pow: "tr_IT_size T = 2 ^ p" "p < 62" and len: "length junk = tr_IT_size T"
  shows "fst (op_assign_copy T junk h this rhs) = None \<and>
         same_elements (snd (op_assign_copy T junk h this rhs))
           (assign_elementwise h this (ResultType_ctor h (Sub rhs))) \<and>
         fst (op_assign T junk h this (Dense (Sub rhs))) = None \<and>
         same_elements (snd (op_assign T junk h this (Dense (Sub rhs))))
           (assign_elementwise h this (ResultType_ctor h (Sub rhs))) \<and>
         (sm_matrix rhs = sm_matrix this \<longrightarrow>
            op_assign T junk h this (Dense (Sub rhs)) =
              (None, assign_dense T junk h this (Tmp (ResultType_ctor h (Sub rhs)))) \<and>
            (op_assign_copy T junk h this rhs =
               (None, assign_dense T junk h this (Tmp (ResultType_ctor h (Sub rhs)))) \<or>
             op_assign_copy T junk h this rhs = (None, h) \<and>
             sm_row rhs = sm_row this \<and> sm_column rhs = sm_column this))"
proof -
  let ?ref = "assign_elementwise h this (ResultType_ctor h (Sub rhs))"
  let ?tmp = "Tmp (ResultType_ctor h (Sub rhs)) :: 'a dense_rhs"
  have m: "sm_m rhs = sm_m this" and n: "sm_n rhs = sm_n this"
    using rows cols by (simp_all add: sm_rows_def sm_columns_def)
  have tmp: "same_elements (assign_dense T junk h this ?tmp) ?ref"
    using vt wf _ pow len by (rule assign_from_tmp) (simp add: sm_columns_def n)
  have direct: "same_elements (assign_dense T junk h this (Sub rhs)) ?ref"
    if "sm_matrix rhs \<noteq> sm_matrix this"
    using vt wf _ _ _ _ pow len
    by (rule assign_direct)
       (use that vr m n in \<open>simp_all add: valid_rhs_def sm_canAlias_def sm_rows_def sm_columns_def\<close>)
  have own: "same_elements h ?ref"
    if "sm_matrix rhs = sm_matrix this" "sm_row rhs = sm_row this" "sm_column rhs = sm_column this"
    using that m n by (rule assign_own_elements)
  have copy: "fst (op_assign_copy T junk h this rhs) = None \<and>
         same_elements (snd (op_assign_copy T junk h this rhs)) ?ref"
    using tmp direct own rows cols
    by (auto simp: op_assign_copy_def Let_def sm_canAlias_def)
  have gen: "fst (op_assign T junk h this (Dense (Sub rhs))) = None \<and>
         same_elements (snd (op_assign T junk h this (Dense (Sub rhs)))) ?ref"
    using tmp direct rows cols
    by (auto simp: op_assign_def Let_def sm_canAlias_def)
  have al: "op_assign T junk h this (Dense (Sub rhs)) = (None, assign_dense T junk h this ?tmp) \<and>
            (op_assign_copy T junk h this rhs = (None, assign_dense T junk h this ?tmp) \<or>
             op_assign_copy T junk h this rhs = (None, h) \<and>
             sm_row rhs = sm_row this \<and> sm_column rhs = sm_column this)"
    if "sm_matrix rhs = sm_matrix this"
    using that rows cols
    by (auto simp: op_assign_def op_assign_copy_def Let_def sm_canAlias_def)
  from copy gen al show ?thesis by blast
qed

theorem assignment_under_aliasing_witness:
  "valid_view (tr_IT_size traits2) store_A10 V00 \<and> valid_view (tr_IT_size traits2) store_A10 V11 \<and>
   sm_matrix V11 = sm_matrix V00 \<and>
   op_assign_copy traits2 [0, 0] store_A10 V00 V11 =
     (None, assign_dense traits2 [0, 0] store_A10 V00 (Tmp (ResultType_ctor store_A10 (Sub V11)))) \<and>
   same_elements (snd (op_assign_copy traits2 [0, 0] store_A10 V00 V11))
     (assign_elementwise store_A10 V00 (ResultType_ctor store_A10 (Sub V11)))"
proof -
  have vt: "valid_view (tr_IT_size traits2) store_A10 V00"
    by (simp add: valid_view_def V00_def store_A10_def A10_def traits2_def)
  have vr: "valid_view (tr_IT_size traits2) store_A10 V11"
    by (simp add: valid_view_def V11_def store_A10_def A10_def traits2_def)
  have wf: "wf_matrix (store_A10 (sm_matrix V00))"
    by (simp add: wf_matrix_def store_A10_def A10_def)
  have rows: "sm_rows V11 = sm_rows V00" and cols: "sm_columns V11 = sm_columns V00"
    by (simp_all add: sm_rows_def sm_columns_def V00_def V11_def)
  have pow: "tr_IT_size traits2 = 2 ^ 1" "(1::nat) < 62" by (simp_all add: traits2_def)
  have len: "length [0, 0 :: int] = tr_IT_size traits2" by (simp add: traits2_def)
  note r = assignment_under_aliasing [OF vt wf vr rows cols pow len]
  have same: "sm_matrix V11 = sm_matrix V00" and diff: "sm_row V11 \<noteq> sm_row V00"
    by (simp_all add: V00_def V11_def)
  have a: "op_assign_copy traits2 [0, 0] store_A10 V00 V11 =
     (None, assign_dense traits2 [0, 0] store_A10 V00 (Tmp (ResultType_ctor store_A10 (Sub V11))))"
    using r same diff by blast
  have b: "same_elements (snd (op_assign_copy traits2 [0, 0] store_A10 V00 V11))
     (assign_elementwise store_A10 V00 (ResultType_ctor store_A10 (Sub V11)))"
    using r by blast
  from vt vr same a b show ?thesis by blast
qed

section \<open>Sparse right-hand sides and the shape check\<close>

lemma for_loop_shift:
  "for_loop (a + k) (a + e) 1 body s = for_loop k e 1 (\<lambda>i. body (a + i)) s"
proof (induction "e - k" arbitrary: k s)
  case 0
  then show ?case by (simp add: for_loop_stop)
next
  case (Suc d)
  then have lt: "k < e" and d: "d = e - Suc k" by simp_all
  have "for_loop (a + k) (a + e) 1 body s = for_loop (a + Suc k) (a + e) 1 body (body (a + k) s)"
    using lt by (simp add: for_loop_step)
  also have "\<dots> = for_loop (Suc k) e 1 (\<lambda>i. body (a + i)) (body (a + k) s)"
    using Suc.hyps(1) [OF d] .
  also have "\<dots> = for_loop k e 1 (\<lambda>i. body (a + i)) s"
    using lt by (simp add: for_loop_step)
  finally show ?case .
qed

lemma row_set_partial:
  assumes p: "partial_assign h0 t v src i 0"
  shows "partial_assign h0
           (for_loop 0 (sm_n v) 1
              (\<lambda>j h2. mat_set h2 (sm_matrix v) (sm_row v + i) (sm_column v + j) (src i j)) t)
           v src (Suc i) 0"
proof -
  let ?P = "\<lambda>j t'. partial_assign h0 t' v src i j \<and> j \<le> sm_n v"
  let ?t = "for_loop 0 (sm_n v) 1
              (\<lambda>j h2. mat_set h2 (sm_matrix v) (sm_row v + i) (sm_column v + j) (src i j)) t"
  have "\<exists>j\<ge>sm_n v. ?P j ?t"
  proof (rule for_loop_invariant [where P = ?P], goal_cases)
    case 1
    show ?case by simp
  next
    case 2
    show ?case using p by simp
  next
    case (3 j t')
    then show ?case
      using partial_assign_set [of h0 t' v src i j "src i j"] by simp
  qed
  then obtain j where "sm_n v \<le> j" "partial_assign h0 ?t v src i j" by blast
  then show ?thesis by (intro partial_assign_next_row)
qed

lemma sm_reset_partial:
  fixes h :: "'a::zero store"
  shows "partial_assign h (sm_reset h v) v (\<lambda>i j. 0) (sm_m v) 0"
proof -
  let ?jend = "sm_column v + sm_n v"
  have inner: "sm_reset_row v ?jend r t =
          for_loop 0 (sm_n v) 1
            (\<lambda>j h2. mat_set h2 (sm_matrix v) r (sm_column v + j) 0) t" for r and t :: "'a store"
    unfolding sm_reset_row_def
    using for_loop_shift [of "sm_column v" 0 "sm_n v" "\<lambda>j h1. mat_set h1 (sm_matrix v) r j 0" t]
    by simp
  have "sm_reset h v = for_loop 0 (sm_m v) 1 (\<lambda>i. sm_reset_row v ?jend (sm_row v + i)) h"
    unfolding sm_reset_def Let_def
    using for_loop_shift [of "sm_row v" 0 "sm_m v" "sm_reset_row v ?jend" h] by simp
  moreover have "partial_assign h
      (for_loop 0 (sm_m v) 1 (\<lambda>i. sm_reset_row v ?jend (sm_row v + i)) h) v (\<lambda>i j. 0) (sm_m v) 0"
  proof (rule rows_invariant)
    show "partial_assign h h v (\<lambda>i j. 0) 0 0" by (rule partial_assign_start)
  next
    fix i t assume "partial_assign h t v (\<lambda>i j. 0) i 0"
    then show "partial_assign h (sm_reset_row v ?jend (sm_row v + i) t) v (\<lambda>i j. 0) (Suc i) 0"
      unfolding inner by (rule row_set_partial)
  qed
  ultimately show ?thesis by simp
qed

lemma fold_mat_set:
  assumes "distinct (map fst es)"
  shows "(\<forall>b. b \<noteq> a \<longrightarrow> fold (\<lambda>e h. mat_set h a r (c0 + fst e) (snd e)) es t b = t b) \<and>
         mat_rows (fold (\<lambda>e h. mat_set h a r (c0 + fst e) (snd e)) es t a) = mat_rows (t a) \<and>
         mat_columns (fold (\<lambda>e h. mat_set h a r (c0 + fst e) (snd e)) es t a) = mat_columns (t a) \<and>
         (\<forall>r' c'. mat_cell (fold (\<lambda>e h. mat_set h a r (c0 + fst e) (snd e)) es t a) r' c' =
            (if r' = r \<and> c0 \<le> c' \<and> c' - c0 \<in> fst ` set es
             then the (map_of es (c' - c0)) else mat_cell (t a) r' c'))"
  using assms
proof (induction es arbitrary: t)
  case Nil
  show ?case by simp
next
  case (Cons e es)
  let ?t = "mat_set t a r (c0 + fst e) (snd e)"
  have d: "distinct (map fst es)" and ne: "fst e \<notin> fst ` set es" using Cons.prems by auto
  note IH = Cons.IH [OF d, of ?t]
  show ?case
  proof (intro conjI allI impI)
    fix b assume "b \<noteq> a"
    then show "fold (\<lambda>e h. mat_set h a r (c0 + fst e) (snd e)) (e # es) t b = t b"
      using IH by (simp add: mat_set_other)
  next
    show "mat_rows (fold (\<lambda>e h. mat_set h a r (c0 + fst e) (snd e)) (e # es) t a) = mat_rows (t a)"
      using IH by simp
    show "mat_columns (fold (\<lambda>e h. mat_set h a r (c0 + fst e) (snd e)) (e # es) t a) = mat_columns (t a)"
      using IH by simp
  next
    fix r' c'
    have "mat_cell (fold (\<lambda>e h. mat_set h a r (c0 + fst e) (snd e)) (e # es) t a) r' c' =
            (if r' = r \<and> c0 \<le> c' \<and> c' - c0 \<in> fst ` set es
             then the (map_of es (c' - c0)) else mat_cell (?t a) r' c')"
      using IH by simp
    also have "\<dots> = (if r' = r \<and> c0 \<le> c' \<and> c' - c0 \<in> fst ` set (e # es)
             then the (map_of (e # es) (c' - c0)) else mat_cell (t a) r' c')"
      using ne by (cases e) (auto simp: mat_set_cell)
    finally show "mat_cell (fold (\<lambda>e h. mat_set h a r (c0 + fst e) (snd e)) (e # es) t a) r' c' =
            (if r' = r \<and> c0 \<le> c' \<and> c' - c0 \<in> fst ` set (e # es)
             then the (map_of (e # es) (c' - c0)) else mat_cell (t a) r' c')" .
  qed
qed

lemma sparse_at_in:
  assumes "j \<in> fst ` set (sp_row S i)"
  shows "sparse_at S i j = the (map_of (sp_row S i) j)"
proof -
  from assms have "map_of (sp_row S i) j \<noteq> None" by (simp add: map_of_eq_None_iff)
  then show ?thesis by (auto simp: sparse_at_def)
qed

lemma sparse_at_out:
  assumes "j \<notin> fst ` set (sp_row S i)"
  shows "sparse_at S i j = 0"
proof -
  from assms have "map_of (sp_row S i) j = None" by (simp add: map_of_eq_None_iff)
  then show ?thesis by (simp add: sparse_at_def)
qed

lemma assign_sparse_row_partial:
  fixes S :: "'a::zero sparse_matrix"
  assumes wf: "wf_sparse S" and rows: "sp_rows S = sm_m v" and cols: "sp_columns S = sm_n v"
    and zero: "\<And>j. j < sm_n v \<Longrightarrow> sm_column v + j < mat_columns (h1 (sm_matrix v)) \<Longrightarrow>
                 mat_cell (h1 (sm_matrix v)) (sm_row v + i) (sm_column v + j) = 0"
    and i: "i < sm_m v" and p: "partial_assign h1 t v (sparse_at S) i 0"
  shows "partial_assign h1 (assign_sparse_row v S i t) v (sparse_at S) (Suc i) 0"
proof -
  let ?a = "sm_matrix v"
  let ?es = "sp_row S i"
  have d: "distinct (map fst ?es)" and idx: "\<And>e. e \<in> set ?es \<Longrightarrow> fst e < sm_n v"
    using wf rows cols i by (auto simp: wf_sparse_def)
  note F = fold_mat_set [OF d, of ?a "sm_row v + i" "sm_column v" t]
  have in_n: "c - sm_column v < sm_n v" if "c - sm_column v \<in> fst ` set ?es" for c
    using that idx by auto
  show ?thesis
    unfolding partial_assign_def assign_sparse_row_def
  proof (intro conjI allI impI)
    fix b assume "b \<noteq> ?a"
    then show "fold (\<lambda>element h1. mat_set h1 ?a (sm_row v + i) (sm_column v + fst element) (snd element)) ?es t b = h1 b"
      using F p by (simp add: partial_assign_def)
  next
    show "mat_rows (fold (\<lambda>element h1. mat_set h1 ?a (sm_row v + i) (sm_column v + fst element) (snd element)) ?es t ?a) = mat_rows (h1 ?a)"
      using F p by (simp add: partial_assign_def)
    show "mat_columns (fold (\<lambda>element h1. mat_set h1 ?a (sm_row v + i) (sm_column v + fst element) (snd element)) ?es t ?a) = mat_columns (h1 ?a)"
      using F p by (simp add: partial_assign_def)
  next
    fix r c assume c: "c < mat_columns (h1 ?a)"
    have old: "mat_cell (t ?a) r c =
          (if sm_column v \<le> c \<and> c < sm_column v + sm_n v \<and> sm_row v \<le> r \<and> r < sm_row v + i
           then sparse_at S (r - sm_row v) (c - sm_column v) else mat_cell (h1 ?a) r c)"
      using p c by (auto simp: partial_assign_def)
    have new: "mat_cell (fold (\<lambda>element h1. mat_set h1 ?a (sm_row v + i) (sm_column v + fst element) (snd element)) ?es t ?a) r c =
            (if r = sm_row v + i \<and> sm_column v \<le> c \<and> c - sm_column v \<in> fst ` set ?es
             then the (map_of ?es (c - sm_column v)) else mat_cell (t ?a) r c)"
      using F by simp
    show "mat_cell (fold (\<lambda>element h1. mat_set h1 ?a (sm_row v + i) (sm_column v + fst element) (snd element)) ?es t ?a) r c =
          (if sm_column v \<le> c \<and> c < sm_column v + sm_n v \<and>
              (sm_row v \<le> r \<and> r < sm_row v + Suc i \<or> r = sm_row v + Suc i \<and> c < sm_column v + 0)
           then sparse_at S (r - sm_row v) (c - sm_column v) else mat_cell (h1 ?a) r c)"
    proof (cases "r = sm_row v + i \<and> sm_column v \<le> c \<and> c < sm_column v + sm_n v")
      case True
      then have ri: "r - sm_row v = i" by simp
      show ?thesis
      proof (cases "c - sm_column v \<in> fst ` set ?es")
        case True
        with \<open>r = sm_row v + i \<and> sm_column v \<le> c \<and> c < sm_column v + sm_n v\<close> show ?thesis
          unfolding new by (simp add: sparse_at_in)
      next
        case False
        have "mat_cell (h1 ?a) (sm_row v + i) (sm_column v + (c - sm_column v)) = 0"
          using True c by (intro zero) auto
        with True False show ?thesis
          unfolding new old by (simp add: sparse_at_out)
      qed
    next
      case False
      have "\<not> (r = sm_row v + i \<and> sm_column v \<le> c \<and> c - sm_column v \<in> fst ` set ?es)"
      proof
        assume a: "r = sm_row v + i \<and> sm_column v \<le> c \<and> c - sm_column v \<in> fst ` set ?es"
        then have "c - sm_column v < sm_n v" by (intro in_n) simp
        with a have "c < sm_column v + sm_n v" by simp
        with a False show False by simp
      qed
      with False show ?thesis unfolding new old by (auto simp: less_Suc_eq)
    qed
  qed
qed

lemma assign_sparse_partial:
  fixes S :: "'a::zero sparse_matrix"
  assumes wf: "wf_sparse S" and rows: "sp_rows S = sm_m v" and cols: "sp_columns S = sm_n v"
  shows "partial_assign h (assign_sparse (sm_reset h v) v S) v (sparse_at S) (sm_m v) 0"
proof -
  let ?h1 = "sm_reset h v"
  let ?a = "sm_matrix v"
  have r: "partial_assign h ?h1 v (\<lambda>i j. 0) (sm_m v) 0" by (rule sm_reset_partial)
  have zero: "mat_cell (?h1 ?a) (sm_row v + i) (sm_column v + j) = 0"
    if "i < sm_m v" "j < sm_n v" "sm_column v + j < mat_columns (?h1 ?a)" for i j
    using r that by (simp add: partial_assign_def)
  let ?Q = "\<lambda>i t. partial_assign ?h1 t v (sparse_at S) i 0 \<and> i \<le> sm_m v"
  have "\<exists>i\<ge>sm_m v. ?Q i (for_loop 0 (sm_m v) 1 (assign_sparse_row v S) ?h1)"
  proof (rule for_loop_invariant [where P = ?Q], goal_cases)
    case 1
    show ?case by simp
  next
    case 2
    show ?case by (simp add: partial_assign_start)
  next
    case (3 i t)
    then have "partial_assign ?h1 (assign_sparse_row v S i t) v (sparse_at S) (Suc i) 0"
      using zero by (intro assign_sparse_row_partial [OF wf rows cols]) simp_all
    with 3 show ?case by simp
  qed
  then have s: "partial_assign ?h1 (assign_sparse ?h1 v S) v (sparse_at S) (sm_m v) 0"
    unfolding assign_sparse_def by (metis (no_types, lifting) le_antisym)
  show ?thesis
    using r s unfolding partial_assign_def by auto
qed

text \<open>
  Claim C9.  A 4 by 4 sparse matrix with exactly three explicit elements, at distinct
  positions and with values other than the default, is assigned by \<^verbatim>\<open>operator=\<close> to a 4 by 4
  view.  Whatever the view held before, nothing is thrown, every element of the view is
  then the element of the sparse matrix at its position, the elements other than the
  default are exactly those at the three positions, and their number is three (so the
  other thirteen hold the default value).
\<close>

theorem sparse_assignment_4x4:
  fixes S :: "'a::zero sparse_matrix"
  assumes vv: "valid_view W h v" and v4: "sm_rows v = 4" "sm_columns v = 4"
    and wf: "wf_sparse S" and dims: "sp_rows S = 4" "sp_columns S = 4"
    and nz: "sparse_nonZeros S = 3"
    and vals: "\<forall>i < 4. \<forall>e \<in> set (sp_row S i). snd e \<noteq> 0"
  shows "fst (op_assign T junk h v (Sparse S)) = None \<and>
         (\<forall>i < 4. \<forall>j < 4. sm_at (snd (op_assign T junk h v (Sparse S))) v i j = sparse_at S i j) \<and>
         (\<forall>i < 4. \<forall>j < 4. sm_at (snd (op_assign T junk h v (Sparse S))) v i j \<noteq> 0
                              \<longleftrightarrow> j \<in> fst ` set (sp_row S i)) \<and>
         card {(i, j). i < 4 \<and> j < 4 \<and> sm_at (snd (op_assign T junk h v (Sparse S))) v i j \<noteq> 0} = 3"
proof -
  let ?h' = "snd (op_assign T junk h v (Sparse S))"
  have m: "sm_m v = 4" and n: "sm_n v = 4" using v4 by (simp_all add: sm_rows_def sm_columns_def)
  have res: "op_assign T junk h v (Sparse S) = (None, assign_sparse (sm_reset h v) v S)"
    using v4 dims by (simp add: op_assign_def Let_def)
  have p: "partial_assign h ?h' v (sparse_at S) (sm_m v) 0"
    unfolding res using assign_sparse_partial [OF wf, of v h] dims m n by simp
  have b: "sm_column v + sm_n v \<le> mat_columns (h (sm_matrix v))"
    using vv by (simp add: valid_view_def)
  have at: "sm_at ?h' v i j = sparse_at S i j" if "i < 4" "j < 4" for i j
    using partial_assign_sm_at [OF p b, of i j] that m n by simp
  have iff: "sparse_at S i j \<noteq> 0 \<longleftrightarrow> j \<in> fst ` set (sp_row S i)" if "i < 4" for i j
  proof
    assume "sparse_at S i j \<noteq> 0"
    then show "j \<in> fst ` set (sp_row S i)" using sparse_at_out by blast
  next
    assume j: "j \<in> fst ` set (sp_row S i)"
    then obtain x where x: "map_of (sp_row S i) j = Some x"
      by (metis map_of_eq_None_iff not_None_eq)
    then have "(j, x) \<in> set (sp_row S i)" by (rule map_of_SomeD)
    then have "snd (j, x) \<noteq> 0" using vals that by blast
    then have "x \<noteq> 0" by simp
    then show "sparse_at S i j \<noteq> 0" using x by (simp add: sparse_at_def)
  qed
  have idx: "j < 4" if "i < 4" "j \<in> fst ` set (sp_row S i)" for i j
    using wf dims that by (auto simp: wf_sparse_def)
  have nz_iff: "sm_at ?h' v i j \<noteq> 0 \<longleftrightarrow> j \<in> fst ` set (sp_row S i)" if "i < 4" "j < 4" for i j
    using at [OF that] iff [OF that(1), of j] by simp
  have "{(i, j). i < 4 \<and> j < 4 \<and> sm_at ?h' v i j \<noteq> 0} =
        (SIGMA i:{..<4}. fst ` set (sp_row S i))"
  proof (rule set_eqI)
    fix x :: "nat \<times> nat"
    obtain i j where x: "x = (i, j)" by (cases x)
    show "x \<in> {(i, j). i < 4 \<and> j < 4 \<and> sm_at ?h' v i j \<noteq> 0} \<longleftrightarrow>
          x \<in> (SIGMA i:{..<4}. fst ` set (sp_row S i))"
      unfolding x using nz_iff [of i j] idx [of i j]
      by (cases "i < 4"; cases "j < 4") auto
  qed
  moreover have "card (SIGMA i:{..<4::nat}. fst ` set (sp_row S i)) =
        (\<Sum>i\<in>{..<4}. card (fst ` set (sp_row S i)))"
    by (rule card_SigmaI) simp_all
  moreover have "card (fst ` set (sp_row S i)) = length (sp_row S i)" if "i \<in> {..<4::nat}" for i
  proof -
    have "distinct (map fst (sp_row S i))" using wf dims that by (simp add: wf_sparse_def)
    then have "card (set (map fst (sp_row S i))) = length (map fst (sp_row S i))"
      by (rule distinct_card)
    then show ?thesis by simp
  qed
  ultimately have "card {(i, j). i < 4 \<and> j < 4 \<and> sm_at ?h' v i j \<noteq> 0} = 3"
    using nz dims by (simp add: sparse_nonZeros_def)
  then show ?thesis using res at nz_iff by simp
qed

theorem sparse_assignment_4x4_witness:
  "valid_view 2 store_A10 V11 \<and> wf_sparse S3 \<and> sparse_nonZeros S3 = 3 \<and>
   sm_at (snd (op_assign traits2 [0, 0] store_A10 V11 (Sparse S3))) V11 2 3 = 9 \<and>
   sm_at (snd (op_assign traits2 [0, 0] store_A10 V11 (Sparse S3))) V11 3 3 = 0 \<and>
   card {(i, j). i < 4 \<and> j < 4 \<and>
         sm_at (snd (op_assign traits2 [0, 0] store_A10 V11 (Sparse S3))) V11 i j \<noteq> 0} = 3"
proof -
  have vv: "valid_view 2 store_A10 V11"
    by (simp add: valid_view_def V11_def store_A10_def A10_def)
  have v4: "sm_rows V11 = 4" "sm_columns V11 = 4"
    by (simp_all add: sm_rows_def sm_columns_def V11_def)
  have wf: "wf_sparse S3" by (auto simp: wf_sparse_def S3_def)
  have dims: "sp_rows S3 = 4" "sp_columns S3 = 4" by (simp_all add: S3_def)
  have nz: "sparse_nonZeros S3 = 3"
    by (simp add: sparse_nonZeros_def S3_def numeral_eq_Suc lessThan_Suc)
  have vals: "\<forall>i < 4. \<forall>e \<in> set (sp_row S3 i). snd e \<noteq> 0"
    by (auto simp: S3_def)
  note r = sparse_assignment_4x4 [OF vv v4 wf dims nz vals, of traits2 "[0, 0]"]
  have "sparse_at S3 2 3 = 9" "sparse_at S3 3 3 = 0" by (simp_all add: sparse_at_def S3_def)
  with r vv wf nz show ?thesis by simp
qed

text \<open>
  The assignment from a matrix and the two compound assignments check the shape before
  they write: they throw exactly for a right-hand side of another shape, and the store is
  then unchanged.
\<close>

lemma op_assign_shape_mismatch:
  assumes "sm_rows this \<noteq> rhs_rows h rhs \<or> sm_columns this \<noteq> rhs_columns h rhs"
  shows "op_assign T junk h this rhs = (Some (invalid_argument ''Matrix sizes do not match''), h)"
    and "op_add_assign T junk h this rhs = (Some (invalid_argument ''Matrix sizes do not match''), h)"
    and "op_sub_assign T junk h this rhs = (Some (invalid_argument ''Matrix sizes do not match''), h)"
  using assms by (auto simp: op_assign_def op_add_assign_def op_sub_assign_def)

lemma op_assign_shape_match:
  assumes "sm_rows this = rhs_rows h rhs" and "sm_columns this = rhs_columns h rhs"
  shows "fst (op_assign T junk h this rhs) = None"
    and "fst (op_add_assign T junk h this rhs) = None"
    and "fst (op_sub_assign T junk h this rhs) = None"
  using assms by (simp_all add: op_assign_def op_add_assign_def op_sub_assign_def Let_def)

text \<open>
  Claim C5 fails on the code.  The copy assignment returns at once when the right-hand
  side is a view of the same matrix with the same row and column offsets, before it
  compares the shapes: assigning \<^verbatim>\<open>submatrix( A, 0, 0, 2, 2 )\<close> to
  \<^verbatim>\<open>submatrix( A, 0, 0, 4, 4 )\<close> throws nothing.
\<close>

theorem copy_assignment_skips_shape_check:
  "submatrix 4 store_A10 0 0 0 4 4 = Inr V00 \<and> submatrix 4 store_A10 0 0 0 2 2 = Inr V22 \<and>
   sm_rows V22 \<noteq> sm_rows V00 \<and> sm_columns V22 \<noteq> sm_columns V00 \<and>
   op_assign_copy T junk store_A10 V00 V22 = (None, store_A10)"
  by (simp add: submatrix_def DenseSubmatrix_ctor_def size_t_add_def store_A10_def A10_def
      V00_def V22_def sm_rows_def sm_columns_def op_assign_copy_def)

theorem copy_assignment_skips_shape_check_witness:
  "sm_rows V22 \<noteq> sm_rows V00 \<and>
   op_assign_copy traits2 [0, 0] store_A10 V00 V22 = (None, store_A10)"
  using copy_assignment_skips_shape_check [of traits2 "[0, 0]"] by simp

end
